theory Spec2Isabelle
  imports Complex_Main "HOL-Library.Sublist"
begin

section \<open>Idempotent exercise-session ingest\<close>

text \<open>
  A shallow embedding of \<^verbatim>\<open>src/idempotencyService.ts\<close>, \<^verbatim>\<open>src/ingestHandler.ts\<close>,
  \<^verbatim>\<open>src/validators.ts\<close> and \<^verbatim>\<open>src/metrics.ts\<close>.

  Conventions of the embedding.
  \<^item> A JavaScript \<^verbatim>\<open>number\<close> that carries a metric is a \<^typ>\<open>real\<close>: arithmetic is exact,
    rounding and \<^verbatim>\<open>NaN\<close> are not modelled. Sequence numbers and the version counter are
    \<^typ>\<open>int\<close>.
  \<^item> A \<^verbatim>\<open>Date\<close> or a Firestore \<^verbatim>\<open>Timestamp\<close> is the instant it denotes, in
    milliseconds since the epoch (\<^typ>\<open>int\<close>), and two of them compare as their instants do;
    an ISO-8601 string is the instant it parses to.
  \<^item> An optional field is an \<^typ>\<open>'a option\<close>; \<^verbatim>\<open>undefined\<close> is \<^term>\<open>None\<close>.
  \<^item> Every reading of a clock is an argument of the function that reads it.
  \<^item> The document store is a record of its collections, each a map from document id to
    document. A transaction runs atomically: it maps a store to a result and a store.
  \<^item> A thrown value is the left injection of a sum.
\<close>

subsection \<open>JavaScript truthiness of optional numbers\<close>

text \<open>\<^verbatim>\<open>x || d\<close> for an optional number: \<^verbatim>\<open>undefined\<close> and \<^verbatim>\<open>0\<close> are both falsy.\<close>

definition js_or :: "'a::zero option \<Rightarrow> 'a \<Rightarrow> 'a" where
  "js_or x d = (case x of None \<Rightarrow> d | Some v \<Rightarrow> if v = 0 then d else v)"

text \<open>An optional number used as a condition.\<close>

definition js_truthy :: "'a::zero option \<Rightarrow> bool" where
  "js_truthy x = (case x of None \<Rightarrow> False | Some v \<Rightarrow> v \<noteq> 0)"

text \<open>An optional boolean used as a condition.\<close>

definition js_true :: "bool option \<Rightarrow> bool" where
  "js_true b = (b = Some True)"

subsection \<open>Data model (\<^verbatim>\<open>src/types.ts\<close>)\<close>

datatype event_type = Start | Update | End

datatype session_status = Active | SessionCompleted | Abandoned

datatype reconciliation_reason = ClockDrift | OutOfOrder | Manual

record EventMetrics =
  calories :: "real option"
  distance :: "real option"
  heartRate :: "real option"
  duration :: "real option"

record SessionMetrics =
  totalDuration :: real
  caloriesBurned :: real
  m_distance :: "real option"
  heartRateAvg :: "real option"
  heartRateDataPoints :: "real option"

record ExerciseSession =
  s_sessionId :: string
  s_userId :: string
  startTime :: int
  endTime :: "int option"
  lastUpdated :: int
  lastReconciled :: "int option"
  lastEventTime :: "int option"
  lastEventSequence :: "int option"
  version :: int
  s_metrics :: SessionMetrics
  s_status :: session_status
  requiresReconciliation :: "bool option"
  reconciliationReason :: "reconciliation_reason option"

record ExerciseEvent =
  e_eventId :: string
  e_sessionId :: string
  e_userId :: string
  e_timestamp :: int
  e_type :: event_type
  e_metrics :: "EventMetrics option"
  clientTimestamp :: int
  serverTimestamp :: int
  e_eventSequence :: int
  schemaVersion :: int
  outOfOrder :: "bool option"
  clockDriftDetected :: "bool option"

text \<open>
  \<^verbatim>\<open>IngestRequest\<close>. The fields \<^verbatim>\<open>_requiresReconciliation\<close> and \<^verbatim>\<open>_clockDriftDetected\<close> are
  \<open>p_requiresReconciliation\<close> and \<open>p_clockDriftDetected\<close>.
\<close>

record IngestRequest =
  idempotencyKey :: string
  sessionId :: string
  userId :: string
  eventId :: string
  eventType :: event_type
  timestamp :: int
  metrics :: "EventMetrics option"
  eventSequence :: "int option"
  p_requiresReconciliation :: "bool option"
  p_clockDriftDetected :: "bool option"

datatype record_status = Processing | Completed | Failed

text \<open>
  \<^verbatim>\<open>IdempotencyRecord\<close>, generic in the request \<open>'q\<close> and the response \<open>'r\<close> (both
  \<^verbatim>\<open>any\<close> in the source). \<open>completedAt\<close> and \<open>failedAt\<close> are the two fields that
  \<^verbatim>\<open>docRef.update\<close> adds.
\<close>

record ('q, 'r) IdempotencyRecord =
  key :: string
  request :: 'q
  response :: "'r option"
  status :: record_status
  error :: "string option"
  createdAt :: int
  processingStartedAt :: "int option"
  expiresAt :: int
  completedAt :: "int option"
  failedAt :: "int option"

text \<open>
  The database: the collections \<^verbatim>\<open>idempotency\<close>, \<^verbatim>\<open>sessions\<close> and \<^verbatim>\<open>events\<close>, and the
  names of the signals handed to \<^verbatim>\<open>logMetrics\<close>, in order.
\<close>

record ('q, 'r) db =
  idempotency :: "string \<rightharpoonup> ('q, 'r) IdempotencyRecord"
  sessions :: "string \<rightharpoonup> ExerciseSession"
  events :: "string \<rightharpoonup> ExerciseEvent"
  metricsLog :: "string list"

text \<open>A thrown value: an \<^verbatim>\<open>Error\<close> with its message, or anything else.\<close>

datatype js_error = Error string | NonError

subsection \<open>Idempotency guard (\<^verbatim>\<open>src/idempotencyService.ts\<close>)\<close>

definition EXPIRY_HOURS :: int where
  "EXPIRY_HOURS = 24"

definition PROCESSING_TIMEOUT_MS :: int where
  "PROCESSING_TIMEOUT_MS = 2 * 60 * 1000"

text \<open>The three instants one call reads: lines 24, 53 and 84/93.\<close>

record guard_clock =
  check_at :: int
  claim_at :: int
  final_at :: int

datatype 'r claim_result = FromCache 'r | ShouldProcess

definition processingAge :: "int \<Rightarrow> ('q, 'r) IdempotencyRecord \<Rightarrow> int" where
  "processingAge now d =
     (case processingStartedAt d of Some t \<Rightarrow> now - t | None \<Rightarrow> now - createdAt d)"

text \<open>Lines 52-68: the fresh record, written under the key.\<close>

definition newRecord :: "int \<Rightarrow> string \<Rightarrow> 'q \<Rightarrow> ('q, 'r) IdempotencyRecord" where
  "newRecord now k req =
     \<lparr> key = k, request = req, response = None, status = Processing, error = None,
       createdAt = now, processingStartedAt = Some now,
       expiresAt = now + EXPIRY_HOURS * 60 * 60 * 1000,
       completedAt = None, failedAt = None \<rparr>"

definition writeClaim ::
  "int \<Rightarrow> string \<Rightarrow> 'q \<Rightarrow> ('q, 'r) db \<Rightarrow> (js_error + 'r claim_result) \<times> ('q, 'r) db" where
  "writeClaim now k req st =
     (Inr ShouldProcess, st\<lparr>idempotency := (idempotency st)(k \<mapsto> newRecord now k req)\<rparr>)"

text \<open>
  Lines 19-69: the claim transaction. \<open>truthy\<close> is JavaScript's truthiness on the response
  type, which the guard \<^verbatim>\<open>data.response\<close> of line 28 consults.
\<close>

definition claimTransaction ::
  "('r \<Rightarrow> bool) \<Rightarrow> guard_clock \<Rightarrow> string \<Rightarrow> 'q \<Rightarrow> ('q, 'r) db
     \<Rightarrow> (js_error + 'r claim_result) \<times> ('q, 'r) db" where
  "claimTransaction truthy clk k req st =
     (case idempotency st k of
        None \<Rightarrow> writeClaim (claim_at clk) k req st
      | Some d \<Rightarrow>
          if check_at clk < expiresAt d then
            (case (status d, response d) of
               (Completed, Some r) \<Rightarrow>
                 if truthy r then (Inr (FromCache r), st)
                 else writeClaim (claim_at clk) k req st
             | (Completed, None) \<Rightarrow> writeClaim (claim_at clk) k req st
             | (Processing, _) \<Rightarrow>
                 if processingAge (check_at clk) d > PROCESSING_TIMEOUT_MS
                 then writeClaim (claim_at clk) k req st
                 else (Inl (Error ''CONCURRENT_REQUEST''), st)
             | (Failed, _) \<Rightarrow>
                 (Inl (Error (''PREVIOUS_FAILED: ''
                    @ (case error d of Some e \<Rightarrow> e | None \<Rightarrow> ''undefined''))), st))
          else writeClaim (claim_at clk) k req st)"

text \<open>Lines 97-108: the outer \<^verbatim>\<open>catch\<close>, which renames two messages and rethrows.\<close>

definition failClosed :: "js_error \<Rightarrow> js_error" where
  "failClosed e =
     (case e of
        Error m \<Rightarrow>
          if m = ''CONCURRENT_REQUEST'' then Error ''Request is already being processed''
          else if prefix ''PREVIOUS_FAILED'' m
          then Error ''Previous request failed, please retry with new idempotency key''
          else e
      | NonError \<Rightarrow> e)"

text \<open>\<^verbatim>\<open>docRef.update\<close>: merges fields into an existing document and throws when there is none.\<close>

definition updateRecord ::
  "string \<Rightarrow> (('q, 'r) IdempotencyRecord \<Rightarrow> ('q, 'r) IdempotencyRecord) \<Rightarrow> ('q, 'r) db
     \<Rightarrow> js_error + ('q, 'r) db" where
  "updateRecord k f st =
     (case idempotency st k of
        None \<Rightarrow> Inl (Error ''Document does not exist'')
      | Some d \<Rightarrow> Inr (st\<lparr>idempotency := (idempotency st)(k \<mapsto> f d)\<rparr>))"

definition errorMessage :: "js_error \<Rightarrow> string" where
  "errorMessage e = (case e of Error m \<Rightarrow> m | NonError \<Rightarrow> ''Unknown error'')"

text \<open>Lines 88-96: the inner \<^verbatim>\<open>catch\<close>; a failing update replaces the error in flight.\<close>

definition markFailed ::
  "int \<Rightarrow> string \<Rightarrow> js_error \<Rightarrow> ('q, 'r) db \<Rightarrow> js_error \<times> ('q, 'r) db" where
  "markFailed now k e st =
     (case updateRecord k
             (\<lambda>d. d\<lparr>status := Failed, error := Some (errorMessage e), failedAt := Some now\<rparr>) st of
        Inl e' \<Rightarrow> (e', st)
      | Inr st' \<Rightarrow> (e, st'))"

record 'r guard_result =
  isNew :: bool
  result_response :: 'r

text \<open>
  Lines 80-96: what follows the processor. \<open>res\<close> is what the processor resolved to or
  threw. A failing update of the success path is caught by the same \<^verbatim>\<open>catch\<close>.
\<close>

definition finalizeRecord ::
  "int \<Rightarrow> string \<Rightarrow> js_error + 'r \<Rightarrow> ('q, 'r) db
     \<Rightarrow> (js_error + 'r guard_result) \<times> ('q, 'r) db" where
  "finalizeRecord now k res st =
     (case res of
        Inr r \<Rightarrow>
          (case updateRecord k
                  (\<lambda>d. d\<lparr>response := Some r, status := Completed, completedAt := Some now\<rparr>) st of
             Inr st' \<Rightarrow> (Inr \<lparr>isNew = True, result_response = r\<rparr>, st')
           | Inl e \<Rightarrow>
               (case markFailed now k e st of (e', st') \<Rightarrow> (Inl (failClosed e'), st')))
      | Inl e \<Rightarrow>
          (case markFailed now k e st of (e', st') \<Rightarrow> (Inl (failClosed e'), st')))"

text \<open>
  Lines 10-109. The processor is a function on the store: it returns what it resolves to or
  throws, and the store it leaves.
\<close>

definition processWithIdempotency ::
  "('r \<Rightarrow> bool) \<Rightarrow> guard_clock \<Rightarrow> string \<Rightarrow> 'q
     \<Rightarrow> (('q, 'r) db \<Rightarrow> (js_error + 'r) \<times> ('q, 'r) db)
     \<Rightarrow> ('q, 'r) db \<Rightarrow> (js_error + 'r guard_result) \<times> ('q, 'r) db" where
  "processWithIdempotency truthy clk k req processor st =
     (case claimTransaction truthy clk k req st of
        (Inl e, st1) \<Rightarrow> (Inl (failClosed e), st1)
      | (Inr (FromCache r), st1) \<Rightarrow> (Inr \<lparr>isNew = False, result_response = r\<rparr>, st1)
      | (Inr ShouldProcess, st1) \<Rightarrow>
          (case processor st1 of
             (res, st2) \<Rightarrow> finalizeRecord (final_at clk) k res st2))"

subsection \<open>Concurrent calls of the guard\<close>

text \<open>
  Calls of \<^verbatim>\<open>processWithIdempotency\<close> for one key interleave at their \<^verbatim>\<open>await\<close>s. A call
  takes three steps, each atomic in the store, which serializes its transactions: the claim
  transaction, the processor, and the update of the record. A schedule names, step by step,
  the call that moves and the clock it reads; a call is under way from its invocation,
  which precedes its first step by any delay. \<open>runs\<close> counts the executions of the
  processor.
\<close>

datatype 'r call_phase =
    NotStarted
  | Claimed
  | Ran "js_error + 'r"
  | Returned "js_error + 'r guard_result"

record ('q, 'r) world =
  store :: "('q, 'r) db"
  calls :: "nat \<Rightarrow> 'r call_phase"
  runs :: nat

definition initialWorld :: "('q, 'r) db \<Rightarrow> ('q, 'r) world" where
  "initialWorld st = \<lparr> store = st, calls = (\<lambda>_. NotStarted), runs = 0 \<rparr>"

definition step ::
  "('r \<Rightarrow> bool) \<Rightarrow> string \<Rightarrow> 'q \<Rightarrow> (('q, 'r) db \<Rightarrow> (js_error + 'r) \<times> ('q, 'r) db)
     \<Rightarrow> nat \<times> guard_clock \<Rightarrow> ('q, 'r) world \<Rightarrow> ('q, 'r) world" where
  "step truthy k req processor a w =
     (case a of (c, clk) \<Rightarrow>
        (case calls w c of
           NotStarted \<Rightarrow>
             (case claimTransaction truthy clk k req (store w) of
                (Inl e, st) \<Rightarrow>
                  w\<lparr>store := st, calls := (calls w)(c := Returned (Inl (failClosed e)))\<rparr>
              | (Inr (FromCache r), st) \<Rightarrow>
                  w\<lparr>store := st,
                    calls := (calls w)(c := Returned (Inr \<lparr>isNew = False, result_response = r\<rparr>))\<rparr>
              | (Inr ShouldProcess, st) \<Rightarrow>
                  w\<lparr>store := st, calls := (calls w)(c := Claimed)\<rparr>)
         | Claimed \<Rightarrow>
             (case processor (store w) of
                (res, st) \<Rightarrow>
                  w\<lparr>store := st, calls := (calls w)(c := Ran res), runs := runs w + 1\<rparr>)
         | Ran res \<Rightarrow>
             (case finalizeRecord (final_at clk) k res (store w) of
                (out, st) \<Rightarrow> w\<lparr>store := st, calls := (calls w)(c := Returned out)\<rparr>)
         | Returned _ \<Rightarrow> w))"

fun run ::
  "('r \<Rightarrow> bool) \<Rightarrow> string \<Rightarrow> 'q \<Rightarrow> (('q, 'r) db \<Rightarrow> (js_error + 'r) \<times> ('q, 'r) db)
     \<Rightarrow> (nat \<times> guard_clock) list \<Rightarrow> ('q, 'r) world \<Rightarrow> ('q, 'r) world" where
  "run truthy k req processor [] w = w"
| "run truthy k req processor (a # sched) w =
     run truthy k req processor sched (step truthy k req processor a w)"

text \<open>
  A claim is within the window when the record it reads, if any, has not expired and, if
  it is processing, has not passed the timeout: the claim is no takeover.
\<close>

definition withinWindow :: "string \<Rightarrow> nat \<times> guard_clock \<Rightarrow> ('q, 'r) world \<Rightarrow> bool" where
  "withinWindow k a w =
     (case a of (c, clk) \<Rightarrow>
        (case calls w c of
           NotStarted \<Rightarrow>
             (case idempotency (store w) k of
                None \<Rightarrow> True
              | Some d \<Rightarrow>
                  check_at clk < expiresAt d
                  \<and> (status d \<noteq> Processing
                     \<or> processingAge (check_at clk) d \<le> PROCESSING_TIMEOUT_MS))
         | _ \<Rightarrow> True))"

fun noTakeover ::
  "('r \<Rightarrow> bool) \<Rightarrow> string \<Rightarrow> 'q \<Rightarrow> (('q, 'r) db \<Rightarrow> (js_error + 'r) \<times> ('q, 'r) db)
     \<Rightarrow> (nat \<times> guard_clock) list \<Rightarrow> ('q, 'r) world \<Rightarrow> bool" where
  "noTakeover truthy k req processor [] w = True"
| "noTakeover truthy k req processor (a # sched) w =
     (withinWindow k a w
      \<and> noTakeover truthy k req processor sched (step truthy k req processor a w))"

text \<open>
  The invariant of the interleaved calls for the key \<open>k\<close>. A call owns the key between its
  claim and its update of the record.
\<close>

definition owner :: "'r call_phase \<Rightarrow> bool" where
  "owner ph = (case ph of Claimed \<Rightarrow> True | Ran _ \<Rightarrow> True | _ \<Rightarrow> False)"

definition replayable :: "('r \<Rightarrow> bool) \<Rightarrow> ('q, 'r) IdempotencyRecord option \<Rightarrow> bool" where
  "replayable truthy rec =
     (case rec of
        None \<Rightarrow> True
      | Some d \<Rightarrow>
          status d \<noteq> Completed \<or> (case response d of None \<Rightarrow> False | Some r \<Rightarrow> truthy r))"

definition guardInvariant :: "('r \<Rightarrow> bool) \<Rightarrow> string \<Rightarrow> ('q, 'r) world \<Rightarrow> bool" where
  "guardInvariant truthy k w =
     (runs w \<le> 1
      \<and> (0 < runs w \<longrightarrow> idempotency (store w) k \<noteq> None)
      \<and> (\<forall>c c'. owner (calls w c) \<and> owner (calls w c') \<longrightarrow> c = c')
      \<and> (\<forall>c. calls w c = Claimed \<longrightarrow> runs w = 0)
      \<and> (\<forall>c. owner (calls w c)
             \<longrightarrow> (\<exists>d. idempotency (store w) k = Some d \<and> status d = Processing))
      \<and> (\<forall>c g. calls w c = Returned (Inr g)
             \<longrightarrow> (\<exists>d. idempotency (store w) k = Some d \<and> status d = Completed
                      \<and> response d = Some (result_response g)))
      \<and> (\<forall>c r. calls w c = Ran (Inr r) \<longrightarrow> truthy r)
      \<and> replayable truthy (idempotency (store w) k))"

subsection \<open>Observability sink (\<^verbatim>\<open>src/metrics.ts\<close>)\<close>

text \<open>
  \<^verbatim>\<open>logMetrics\<close> writes to the \<^verbatim>\<open>metrics\<close> collection only and swallows every failure. The
  model records the name of the signal.
\<close>

definition logMetrics :: "string \<Rightarrow> ('q, 'r) db \<Rightarrow> ('q, 'r) db" where
  "logMetrics eventName st = st\<lparr>metricsLog := metricsLog st @ [eventName]\<rparr>"

subsection \<open>Session merge engine (\<^verbatim>\<open>src/ingestHandler.ts\<close>)\<close>

text \<open>Optional chaining \<^verbatim>\<open>payload.metrics?.f\<close>.\<close>

definition metric :: "(EventMetrics \<Rightarrow> 'a option) \<Rightarrow> IngestRequest \<Rightarrow> 'a option" where
  "metric f payload = (case metrics payload of None \<Rightarrow> None | Some m \<Rightarrow> f m)"

text \<open>Lines 187-208. \<open>commit\<close> is the instant \<^verbatim>\<open>serverTimestamp()\<close> resolves to.\<close>

definition createNewSession :: "int \<Rightarrow> IngestRequest \<Rightarrow> ExerciseSession" where
  "createNewSession commit payload =
     \<lparr> s_sessionId = sessionId payload,
       s_userId = userId payload,
       startTime = timestamp payload,
       endTime = None,
       lastUpdated = commit,
       lastReconciled = None,
       lastEventTime = Some (timestamp payload),
       lastEventSequence = Some (js_or (eventSequence payload) 0),
       version = 1,
       s_metrics =
         \<lparr> totalDuration = 0,
           caloriesBurned = js_or (metric calories payload) 0,
           m_distance = Some (js_or (metric distance payload) 0),
           heartRateAvg = metric heartRate payload,
           heartRateDataPoints =
             Some (if js_truthy (metric heartRate payload)
                   then max (js_or (metric duration payload) 1) 1 else 0) \<rparr>,
       s_status = Active,
       requiresReconciliation = None,
       reconciliationReason = None \<rparr>"

text \<open>Lines 233-236: calories are deltas and are summed.\<close>

definition addCalories :: "EventMetrics \<Rightarrow> SessionMetrics \<Rightarrow> SessionMetrics" where
  "addCalories m sm =
     (case calories m of
        Some c \<Rightarrow> if c \<ge> 0 then sm\<lparr>caloriesBurned := caloriesBurned sm + c\<rparr> else sm
      | None \<Rightarrow> sm)"

text \<open>Lines 238-244: distance is absolute and kept as a running maximum.\<close>

definition maxDistance :: "EventMetrics \<Rightarrow> SessionMetrics \<Rightarrow> SessionMetrics" where
  "maxDistance m sm =
     (case distance m of
        Some d \<Rightarrow> if d \<ge> 0 then sm\<lparr>m_distance := Some (max (js_or (m_distance sm) 0) d)\<rparr> else sm
      | None \<Rightarrow> sm)"

text \<open>Lines 246-261: the heart rate is folded into a duration-weighted mean.\<close>

definition foldHeartRate :: "EventMetrics \<Rightarrow> SessionMetrics \<Rightarrow> SessionMetrics" where
  "foldHeartRate m sm =
     (case heartRate m of
        Some hr \<Rightarrow>
          if hr > 0 \<and> hr \<le> 250 then
            (let dur = max (js_or (duration m) 1) 1;
                 currentWeight = js_or (heartRateDataPoints sm) 0;
                 currentAvg = js_or (heartRateAvg sm) hr;
                 totalWeight = currentWeight + dur
             in if totalWeight > 0
                then sm\<lparr>heartRateAvg := Some ((currentAvg * currentWeight + hr * dur) / totalWeight),
                        heartRateDataPoints := Some totalWeight\<rparr>
                else sm)
          else sm
      | None \<Rightarrow> sm)"

text \<open>Lines 264-271: the duration is recomputed from the timestamps, in seconds.\<close>

definition recalcDuration :: "int \<Rightarrow> ExerciseSession \<Rightarrow> real" where
  "recalcDuration now session =
     (case endTime session of
        Some t \<Rightarrow> real_of_int (t - startTime session) / 1000
      | None \<Rightarrow> real_of_int (now - startTime session) / 1000)"

text \<open>
  Lines 210-277. \<open>now\<close> is \<^verbatim>\<open>Date.now()\<close>, \<open>commit\<close> the server timestamp. A \<^verbatim>\<open>Date\<close> is
  truthy, so \<^verbatim>\<open>!session.startTime\<close> is false and \<^verbatim>\<open>!session.endTime\<close> tests absence.
\<close>

definition updateSessionMetrics ::
  "int \<Rightarrow> int \<Rightarrow> ExerciseSession \<Rightarrow> IngestRequest \<Rightarrow> ExerciseSession" where
  "updateSessionMetrics now commit session payload =
     (let eventTime = timestamp payload;
          s1 = (if eventType payload = Start \<and> eventTime < startTime session
                then session\<lparr>startTime := eventTime\<rparr> else session);
          s2 = (if eventType payload = End
                then (if (case endTime s1 of None \<Rightarrow> True | Some t \<Rightarrow> eventTime > t)
                      then s1\<lparr>endTime := Some eventTime\<rparr> else s1)\<lparr>s_status := SessionCompleted\<rparr>
                else s1);
          s3 = (case metrics payload of
                  None \<Rightarrow> s2
                | Some m \<Rightarrow>
                    s2\<lparr>s_metrics := foldHeartRate m (maxDistance m (addCalories m (s_metrics s2)))\<rparr>);
          s4 = s3\<lparr>s_metrics := (s_metrics s3)\<lparr>totalDuration := recalcDuration now s3\<rparr>\<rparr>
      in s4\<lparr>lastUpdated := commit, version := version s4 + 1\<rparr>)"

text \<open>
  Lines 111-119: the sequence check. Both operands of \<^verbatim>\<open>&&\<close> are numbers used as
  conditions, so a sequence number of 0 counts as none.
\<close>

definition sequenceOutOfOrder :: "ExerciseSession \<Rightarrow> IngestRequest \<Rightarrow> bool" where
  "sequenceOutOfOrder session payload =
     (js_truthy (eventSequence payload) \<and> js_truthy (lastEventSequence session)
      \<and> js_or (eventSequence payload) 0 \<le> js_or (lastEventSequence session) 0)"

text \<open>Lines 121-127: the time check.\<close>

definition timeOutOfOrder :: "ExerciseSession \<Rightarrow> IngestRequest \<Rightarrow> bool" where
  "timeOutOfOrder session payload =
     (case lastEventTime session of None \<Rightarrow> False | Some t \<Rightarrow> timestamp payload < t)"

definition flagOutOfOrder :: "ExerciseSession \<Rightarrow> ExerciseSession" where
  "flagOutOfOrder session =
     session\<lparr>requiresReconciliation := Some True, reconciliationReason := Some OutOfOrder\<rparr>"

text \<open>Lines 134-142: the tracking fields.\<close>

definition updateTracking :: "IngestRequest \<Rightarrow> ExerciseSession \<Rightarrow> ExerciseSession" where
  "updateTracking payload session =
     (let s1 = session\<lparr>lastEventSequence :=
                 Some (max (js_or (lastEventSequence session) 0) (js_or (eventSequence payload) 0))\<rparr>
      in if (case lastEventTime s1 of None \<Rightarrow> True | Some t \<Rightarrow> timestamp payload > t)
         then s1\<lparr>lastEventTime := Some (timestamp payload)\<rparr> else s1)"

text \<open>
  Lines 106-142: the branch of \<^verbatim>\<open>processEvent\<close> for a session that exists. It returns the
  session to write and the local \<^verbatim>\<open>outOfOrder\<close>.
\<close>

definition mergeExisting ::
  "int \<Rightarrow> int \<Rightarrow> ExerciseSession \<Rightarrow> IngestRequest \<Rightarrow> ExerciseSession \<times> bool" where
  "mergeExisting now commit session payload =
     (let bySeq = sequenceOutOfOrder session payload;
          s1 = (if bySeq then flagOutOfOrder session else session);
          byTime = timeOutOfOrder s1 payload;
          s2 = (if byTime then flagOutOfOrder s1 else s1);
          ooo = (bySeq \<or> byTime);
          s3 = (if \<not> ooo then updateSessionMetrics now commit s2 payload else s2)
      in (updateTracking payload s3, ooo))"

text \<open>Lines 147-151.\<close>

definition markClockDrift :: "IngestRequest \<Rightarrow> ExerciseSession \<Rightarrow> ExerciseSession" where
  "markClockDrift payload session =
     (if js_true (p_requiresReconciliation payload) \<and> \<not> js_true (requiresReconciliation session)
      then session\<lparr>requiresReconciliation := Some True, reconciliationReason := Some ClockDrift\<rparr>
      else session)"

text \<open>Lines 153-167.\<close>

definition eventRecord :: "int \<Rightarrow> bool \<Rightarrow> IngestRequest \<Rightarrow> ExerciseEvent" where
  "eventRecord commit ooo payload =
     \<lparr> e_eventId = eventId payload,
       e_sessionId = sessionId payload,
       e_userId = userId payload,
       e_timestamp = timestamp payload,
       e_type = eventType payload,
       e_metrics = metrics payload,
       clientTimestamp = timestamp payload,
       serverTimestamp = commit,
       e_eventSequence = js_or (eventSequence payload) 0,
       schemaVersion = 1,
       outOfOrder = Some ooo,
       clockDriftDetected = p_clockDriftDetected payload \<rparr>"

record CurrentMetrics =
  r_duration :: real
  r_calories :: real
  r_distance :: "real option"
  r_avgHeartRate :: "real option"

record IngestResponse =
  r_status :: string
  r_sessionId :: string
  r_sessionStatus :: "session_status option"
  r_currentMetrics :: "CurrentMetrics option"
  r_requiresReconciliation :: "bool option"
  r_outOfOrder :: "bool option"
  r_warning :: "string option"

text \<open>Lines 84-88.\<close>

definition alreadyProcessed :: "IngestRequest \<Rightarrow> IngestResponse" where
  "alreadyProcessed payload =
     \<lparr> r_status = ''already_processed'',
       r_sessionId = sessionId payload,
       r_sessionStatus = None,
       r_currentMetrics = None,
       r_requiresReconciliation = None,
       r_outOfOrder = None,
       r_warning = Some ''Event already processed with different idempotency key'' \<rparr>"

text \<open>Lines 171-183.\<close>

definition successResponse :: "ExerciseSession \<Rightarrow> bool \<Rightarrow> IngestResponse" where
  "successResponse session ooo =
     \<lparr> r_status = ''success'',
       r_sessionId = s_sessionId session,
       r_sessionStatus = Some (s_status session),
       r_currentMetrics =
         Some \<lparr> r_duration = totalDuration (s_metrics session),
                r_calories = caloriesBurned (s_metrics session),
                r_distance = m_distance (s_metrics session),
                r_avgHeartRate = heartRateAvg (s_metrics session) \<rparr>,
       r_requiresReconciliation = requiresReconciliation session,
       r_outOfOrder = Some ooo,
       r_warning = None \<rparr>"

text \<open>
  Lines 144-184: what the transaction commits. The store keeps the session object that
  was handed to \<^verbatim>\<open>transaction.set\<close>, so the clock-drift mark of lines 147-151, made on
  that object afterwards, is part of the written document.
\<close>

definition commitMerge ::
  "int \<Rightarrow> IngestRequest \<Rightarrow> ExerciseSession \<Rightarrow> bool \<Rightarrow> ('q, 'r) db
     \<Rightarrow> (js_error + IngestResponse) \<times> ('q, 'r) db" where
  "commitMerge commit payload session ooo st =
     (let session' = markClockDrift payload session
      in (Inr (successResponse session' ooo),
          st\<lparr>sessions := (sessions st)(sessionId payload \<mapsto> session'),
             events := (events st)(eventId payload \<mapsto> eventRecord commit ooo payload)\<rparr>))"

text \<open>Lines 67-185: one transaction.\<close>

definition processEvent ::
  "int \<Rightarrow> int \<Rightarrow> IngestRequest \<Rightarrow> ('q, 'r) db \<Rightarrow> (js_error + IngestResponse) \<times> ('q, 'r) db" where
  "processEvent now commit payload st =
     (case events st (eventId payload) of
        Some _ \<Rightarrow> (Inr (alreadyProcessed payload), logMetrics ''duplicate_event'' st)
      | None \<Rightarrow>
          (case sessions st (sessionId payload) of
             None \<Rightarrow>
               if eventType payload \<noteq> Start
               then (Inl (Error ''Cannot create session without start event''), st)
               else commitMerge commit payload (createNewSession commit payload) False st
           | Some session \<Rightarrow>
               (case mergeExisting now commit session payload of
                  (session', ooo) \<Rightarrow> commitMerge commit payload session' ooo st)))"

subsection \<open>Validator (\<^verbatim>\<open>src/validators.ts\<close>)\<close>

definition oneHour :: int where
  "oneHour = 60 * 60 * 1000"

definition oneWeek :: int where
  "oneWeek = 7 * 24 * 60 * 60 * 1000"

text \<open>Lines 63-100: the ranges of the metrics that are present.\<close>

definition validateMetrics :: "EventMetrics \<Rightarrow> string option" where
  "validateMetrics m =
     (if (case calories m of Some c \<Rightarrow> c < 0 \<or> c > 1000 | None \<Rightarrow> False)
      then Some ''Invalid calories (0-1000)''
      else if (case distance m of Some d \<Rightarrow> d < 0 \<or> d > 100000 | None \<Rightarrow> False)
      then Some ''Invalid distance (0-100km)''
      else if (case heartRate m of Some h \<Rightarrow> h < 30 \<or> h > 250 | None \<Rightarrow> False)
      then Some ''Invalid heart rate (30-250)''
      else if (case duration m of Some d \<Rightarrow> d < 0 \<or> d > 14400 | None \<Rightarrow> False)
      then Some ''Invalid duration (0-4 hours)''
      else None)"

text \<open>
  \<^verbatim>\<open>validatePayload\<close> returns the reason of a rejection, and marks the payload it was given
  when the timestamp is more than an hour old. The model returns the payload as the call
  leaves it. The payload is typed, so the \<^verbatim>\<open>typeof\<close> tests, the test of the event type and
  the test that the timestamp parses have no counterpart; an empty string is the falsy
  string.
\<close>

definition validatePayload :: "int \<Rightarrow> IngestRequest \<Rightarrow> string option \<times> IngestRequest" where
  "validatePayload now payload =
     (if idempotencyKey payload = [] then (Some ''Missing or invalid idempotency key'', payload)
      else if length (idempotencyKey payload) > 128
      then (Some ''Idempotency key too long (max 128 chars)'', payload)
      else if sessionId payload = [] then (Some ''Missing or invalid session ID'', payload)
      else if userId payload = [] then (Some ''Missing or invalid user ID'', payload)
      else if eventId payload = [] then (Some ''Missing or invalid event ID'', payload)
      else if timestamp payload < now - oneWeek
      then (Some ''Timestamp too old (max 1 week)'', payload)
      else if timestamp payload > now + oneHour
      then (Some ''Timestamp too far in future (max 1 hour)'', payload)
      else
        (let payload' =
               (if timestamp payload < now - oneHour
                then payload\<lparr>p_requiresReconciliation := Some True,
                             p_clockDriftDetected := Some True\<rparr>
                else payload)
         in case (case metrics payload' of None \<Rightarrow> None | Some m \<Rightarrow> validateMetrics m) of
              Some err \<Rightarrow> (Some err, payload')
            | None \<Rightarrow>
                if (case eventSequence payload' of Some n \<Rightarrow> n < 0 | None \<Rightarrow> False)
                then (Some ''Invalid event sequence'', payload')
                else (None, payload')))"

subsection \<open>Ingest endpoint (\<^verbatim>\<open>src/ingestHandler.ts\<close>, lines 12-65)\<close>

datatype http_body = ErrorBody string | JsonBody IngestResponse

record http_response =
  http_status :: nat
  http_body :: http_body

text \<open>The instants one request reads.\<close>

record request_clock =
  validated_at :: int
  guard_times :: guard_clock
  merged_at :: int
  committed_at :: int

text \<open>The response of \<^verbatim>\<open>processEvent\<close> is an object, and every object is truthy.\<close>

definition objectTruthy :: "IngestResponse \<Rightarrow> bool" where
  "objectTruthy r = True"

text \<open>The store holds the payload as the request of the idempotency record.\<close>

definition ingestExerciseEvent ::
  "request_clock \<Rightarrow> string \<Rightarrow> IngestRequest \<Rightarrow> (IngestRequest, IngestResponse) db
     \<Rightarrow> http_response \<times> (IngestRequest, IngestResponse) db" where
  "ingestExerciseEvent clk method body st =
     (if method \<noteq> ''POST''
      then (\<lparr>http_status = 405, http_body = ErrorBody ''Method not allowed''\<rparr>, st)
      else
        (case validatePayload (validated_at clk) body of
           (Some validationError, _) \<Rightarrow>
             (\<lparr>http_status = 400, http_body = ErrorBody validationError\<rparr>, st)
         | (None, payload) \<Rightarrow>
             (case processWithIdempotency objectTruthy (guard_times clk)
                     (idempotencyKey payload) payload
                     (processEvent (merged_at clk) (committed_at clk) payload) st of
                (Inr result, st') \<Rightarrow>
                  (\<lparr>http_status = 200, http_body = JsonBody (result_response result)\<rparr>,
                   logMetrics ''event_ingested'' st')
              | (Inl e, st') \<Rightarrow>
                  if e = Error ''Request is already being processed''
                  then (\<lparr>http_status = 409,
                          http_body = ErrorBody ''Request is already being processed''\<rparr>, st')
                  else (\<lparr>http_status = 500, http_body = ErrorBody ''Processing failed''\<rparr>, st'))))"

subsection \<open>The stores the endpoint produces\<close>

text \<open>
  Sessions are written by the endpoint only. A store is reachable when it results from a
  store without sessions by any sequence of requests, at any instants.
\<close>

inductive reachable :: "(IngestRequest, IngestResponse) db \<Rightarrow> bool" where
  initial: "sessions st = Map.empty \<Longrightarrow> reachable st"
| request: "reachable st \<Longrightarrow> reachable (snd (ingestExerciseEvent clk method body st))"

text \<open>
  What every session of a reachable store satisfies: a stored average is positive and a
  stored weight is not negative.
\<close>

definition heartConsistent :: "SessionMetrics \<Rightarrow> bool" where
  "heartConsistent sm =
     ((case heartRateAvg sm of None \<Rightarrow> True | Some a \<Rightarrow> 0 < a)
      \<and> (case heartRateDataPoints sm of None \<Rightarrow> True | Some w \<Rightarrow> 0 \<le> w))"

definition sessionsConsistent :: "('q, 'r) db \<Rightarrow> bool" where
  "sessionsConsistent st =
     (\<forall>sid. case sessions st sid of None \<Rightarrow> True | Some s \<Rightarrow> heartConsistent (s_metrics s))"

section \<open>Sample inputs\<close>

text \<open>JavaScript's truthiness of a response that is a number.\<close>

definition numberTruthy :: "int \<Rightarrow> bool" where
  "numberTruthy n = (n \<noteq> 0)"

text \<open>A record under the key \<open>k1\<close>, created at 1000 ms, with a given status and response.\<close>

definition storedRecord :: "record_status \<Rightarrow> int option \<Rightarrow> (string, int) IdempotencyRecord" where
  "storedRecord s r =
     \<lparr> key = ''k1'', request = ''payload'', response = r, status = s, error = None,
       createdAt = 1000, processingStartedAt = Some 1000, expiresAt = 86401000,
       completedAt = None, failedAt = None \<rparr>"

definition guardStore :: "(string, int) IdempotencyRecord option \<Rightarrow> (string, int) db" where
  "guardStore d =
     \<lparr> idempotency = (\<lambda>k. if k = ''k1'' then d else None), sessions = Map.empty,
       events = Map.empty, metricsLog = [] \<rparr>"

definition clockAt :: "int \<Rightarrow> guard_clock" where
  "clockAt t = \<lparr> check_at = t, claim_at = t, final_at = t \<rparr>"

text \<open>A processor that leaves a trace in the store and resolves to a given number.\<close>

definition answer :: "int \<Rightarrow> (string, int) db \<Rightarrow> (js_error + int) \<times> (string, int) db" where
  "answer n st = (Inr n, st\<lparr>metricsLog := metricsLog st @ [''ran'']\<rparr>)"

text \<open>
  Three calls for the key \<open>k1\<close>: call 0 claims at 1000 ms, call 1 claims at 1500 ms while
  call 0 is running, call 0 finishes at 2000 ms, and call 2 claims at 3000 ms.
\<close>

definition threeCalls :: "(nat \<times> guard_clock) list" where
  "threeCalls =
     [(0, clockAt 1000), (1, clockAt 1500), (0, clockAt 1800), (0, clockAt 2000), (2, clockAt 3000),
      (2, clockAt 3200)]"

text \<open>The request of the test suite's \<^verbatim>\<open>createTestRequest\<close>, for the session \<open>session-1\<close>.\<close>

definition testMetrics :: EventMetrics where
  "testMetrics = \<lparr> calories = Some 10, distance = Some 100, heartRate = Some 120, duration = Some 60 \<rparr>"

definition testRequest :: "string \<Rightarrow> string \<Rightarrow> event_type \<Rightarrow> int \<Rightarrow> int \<Rightarrow> IngestRequest" where
  "testRequest k e ty ts n =
     \<lparr> idempotencyKey = k, sessionId = ''session-1'', userId = ''test-user'', eventId = e,
       eventType = ty, timestamp = ts, metrics = Some testMetrics, eventSequence = Some n,
       p_requiresReconciliation = None, p_clockDriftDetected = None \<rparr>"

definition emptyStore :: "(IngestRequest, IngestResponse) db" where
  "emptyStore = \<lparr> idempotency = Map.empty, sessions = Map.empty, events = Map.empty, metricsLog = [] \<rparr>"

text \<open>The store after the start event \<open>event-1\<close> with sequence number \<open>n\<close>, merged at 1000 ms.\<close>

definition startedStore :: "int \<Rightarrow> (IngestRequest, IngestResponse) db" where
  "startedStore n = snd (processEvent 1000 1000 (testRequest ''key-1'' ''event-1'' Start 1000 n) emptyStore)"

text \<open>The same, when the validator had marked the start event for clock drift.\<close>

definition driftedStore :: "int \<Rightarrow> (IngestRequest, IngestResponse) db" where
  "driftedStore n =
     snd (processEvent 1000 1000
            ((testRequest ''key-1'' ''event-1'' Start 1000 n)\<lparr>p_requiresReconciliation := Some True\<rparr>)
            emptyStore)"

text \<open>The store after the claim of \<open>key-1\<close> at 1000 ms, before the processor has run.\<close>

definition claimedStore :: "(IngestRequest, IngestResponse) db" where
  "claimedStore =
     snd (claimTransaction objectTruthy (clockAt 1000) ''key-1''
            (testRequest ''key-1'' ''event-1'' Start 1000 1) emptyStore)"

text \<open>A request whose metrics are a heart rate and a duration only.\<close>

definition heartRequest :: "string \<Rightarrow> event_type \<Rightarrow> real \<Rightarrow> real \<Rightarrow> IngestRequest" where
  "heartRequest e ty hr d =
     (testRequest ''key-1'' e ty 1000 1)
       \<lparr>metrics := Some \<lparr> calories = None, distance = None, heartRate = Some hr, duration = Some d \<rparr>\<rparr>"

text \<open>An update with a heart rate, a duration and the sequence number \<open>n\<close>.\<close>

definition heartUpdate :: "string \<Rightarrow> int \<Rightarrow> real \<Rightarrow> real \<Rightarrow> IngestRequest" where
  "heartUpdate e n hr d = (heartRequest e Update hr d)\<lparr>eventSequence := Some n\<rparr>"

text \<open>A start event without metrics.\<close>

definition plainStart :: IngestRequest where
  "plainStart = (testRequest ''key-0'' ''event-0'' Start 1000 1)\<lparr>metrics := None\<rparr>"

definition requestClock :: "int \<Rightarrow> request_clock" where
  "requestClock t = \<lparr> validated_at = t, guard_times = clockAt t, merged_at = t, committed_at = t \<rparr>"

section \<open>Properties\<close>


subsection \<open>Evaluation helpers\<close>

lemma js_or_zero: "js_or x 0 = (case x of None \<Rightarrow> 0 | Some v \<Rightarrow> v)"
  by (simp add: js_or_def split: option.splits)

subsection \<open>The idempotency guard\<close>

lemma claim_replay:
  assumes "idempotency st k = Some d" and "check_at clk < expiresAt d"
    and "status d = Completed" and "response d = Some r" and "truthy r"
  shows "claimTransaction truthy clk k req st = (Inr (FromCache r), st)"
  using assms by (simp add: claimTransaction_def)

lemma claim_in_flight:
  assumes "idempotency st k = Some d" and "check_at clk < expiresAt d"
    and "status d = Processing" and "processingStartedAt d = Some t"
    and "check_at clk - t \<le> PROCESSING_TIMEOUT_MS"
  shows "claimTransaction truthy clk k req st = (Inl (Error ''CONCURRENT_REQUEST''), st)"
  using assms by (simp add: claimTransaction_def processingAge_def)

lemma failClosed_concurrent:
  "failClosed (Error ''CONCURRENT_REQUEST'') = Error ''Request is already being processed''"
  by (simp add: failClosed_def)

lemma guard_in_flight:
  assumes "idempotency st k = Some d" and "check_at clk < expiresAt d"
    and "status d = Processing" and "processingStartedAt d = Some t"
    and "check_at clk - t \<le> PROCESSING_TIMEOUT_MS"
  shows "processWithIdempotency truthy clk k req processor st
           = (Inl (Error ''Request is already being processed''), st)"
  using assms by (simp add: claim_in_flight failClosed_concurrent processWithIdempotency_def)

lemma endpoint_in_flight:
  assumes "validatePayload (validated_at rc) body = (None, payload)"
    and "idempotency hst (idempotencyKey payload) = Some hrec"
    and "check_at (guard_times rc) < expiresAt hrec"
    and "status hrec = Processing" and "processingStartedAt hrec = Some ht"
    and "check_at (guard_times rc) - ht \<le> PROCESSING_TIMEOUT_MS"
  shows "ingestExerciseEvent rc ''POST'' body hst
         = (\<lparr>http_status = 409, http_body = ErrorBody ''Request is already being processed''\<rparr>, hst)"
  using assms(1) guard_in_flight [OF assms(2-6)]
  by (simp add: ingestExerciseEvent_def)

text \<open>
  C1, amended. When the stored record of the key exists, has not expired, is completed and
  holds a truthy response, \<^verbatim>\<open>processWithIdempotency\<close> returns that response with
  \<open>isNew = false\<close> and leaves the store as it is, whatever the processor: the processor is
  not invoked.
\<close>

theorem cached_response_replayed:
  assumes "idempotency st k = Some d" and "check_at clk < expiresAt d"
    and "status d = Completed" and "response d = Some r" and "truthy r"
  shows "processWithIdempotency truthy clk k req processor st
           = (Inr \<lparr>isNew = False, result_response = r\<rparr>, st)"
  using assms by (simp add: claim_replay processWithIdempotency_def)

theorem cached_response_replayed_witness:
  "processWithIdempotency numberTruthy (clockAt 5000) ''k1'' ''payload'' (answer 7)
       (guardStore (Some (storedRecord Completed (Some 42))))
     = (Inr \<lparr>isNew = False, result_response = 42\<rparr>,
        guardStore (Some (storedRecord Completed (Some 42))))"
proof -
  have "idempotency (guardStore (Some (storedRecord Completed (Some 42)))) ''k1''
          = Some (storedRecord Completed (Some 42))"
    by (simp add: guardStore_def)
  moreover have "check_at (clockAt 5000) < expiresAt (storedRecord Completed (Some 42))"
    by (simp add: clockAt_def storedRecord_def)
  moreover have "status (storedRecord Completed (Some 42)) = Completed"
    and "response (storedRecord Completed (Some 42)) = Some 42"
    by (simp_all add: storedRecord_def)
  moreover have "numberTruthy 42"
    by (simp add: numberTruthy_def)
  ultimately show ?thesis
    by (rule cached_response_replayed)
qed

theorem completed_without_truthy_response_counterexample:
  "idempotency (guardStore (Some (storedRecord Completed (Some 0)))) ''k1''
      = Some (storedRecord Completed (Some 0))
   \<and> check_at (clockAt 5000) < expiresAt (storedRecord Completed (Some 0))
   \<and> status (storedRecord Completed (Some 0)) = Completed
   \<and> response (storedRecord Completed (Some 0)) = Some 0
   \<and> fst (processWithIdempotency numberTruthy (clockAt 5000) ''k1'' ''payload'' (answer 7)
            (guardStore (Some (storedRecord Completed (Some 0)))))
       = Inr \<lparr>isNew = True, result_response = 7\<rparr>
   \<and> metricsLog (snd (processWithIdempotency numberTruthy (clockAt 5000) ''k1'' ''payload''
            (answer 7) (guardStore (Some (storedRecord Completed (Some 0)))))) = [''ran'']"
  by (simp add: guardStore_def storedRecord_def clockAt_def numberTruthy_def
      answer_def processWithIdempotency_def claimTransaction_def writeClaim_def
      finalizeRecord_def updateRecord_def newRecord_def)

text \<open>
  C4. When the stored record of the key exists, has not expired, is processing, and was
  started at most the timeout ago, \<^verbatim>\<open>processWithIdempotency\<close> fails with
  \<open>Request is already being processed\<close> and leaves the store as it is, whatever the
  processor; the endpoint answers such a request with status 409 and that message.
\<close>

theorem concurrent_request_rejected:
  assumes "idempotency st k = Some d" and "check_at clk < expiresAt d"
    and "status d = Processing" and "processingStartedAt d = Some t"
    and "check_at clk - t \<le> PROCESSING_TIMEOUT_MS"
  shows "processWithIdempotency truthy clk k req processor st
           = (Inl (Error ''Request is already being processed''), st)
         \<and> (\<forall>rc body payload hst hrec ht.
              validatePayload (validated_at rc) body = (None, payload)
              \<and> idempotency hst (idempotencyKey payload) = Some hrec
              \<and> check_at (guard_times rc) < expiresAt hrec
              \<and> status hrec = Processing \<and> processingStartedAt hrec = Some ht
              \<and> check_at (guard_times rc) - ht \<le> PROCESSING_TIMEOUT_MS
              \<longrightarrow> ingestExerciseEvent rc ''POST'' body hst
                   = (\<lparr>http_status = 409,
                       http_body = ErrorBody ''Request is already being processed''\<rparr>, hst))"
  using assms by (auto simp add: guard_in_flight endpoint_in_flight)


lemma claimedStore_record:
  "idempotency claimedStore ''key-1''
     = Some (newRecord 1000 ''key-1'' (testRequest ''key-1'' ''event-1'' Start 1000 1))"
  by (simp add: claimedStore_def claimTransaction_def writeClaim_def emptyStore_def clockAt_def)

lemma testRequest_valid:
  "validatePayload 5000 (testRequest ''key-1'' ''event-1'' Start 1000 1)
     = (None, testRequest ''key-1'' ''event-1'' Start 1000 1)"
  by (simp add: validatePayload_def testRequest_def testMetrics_def validateMetrics_def
      oneWeek_def oneHour_def)

theorem concurrent_request_rejected_witness:
  "processWithIdempotency numberTruthy (clockAt 5000) ''k1'' ''payload'' (answer 7)
       (guardStore (Some (storedRecord Processing None)))
     = (Inl (Error ''Request is already being processed''),
        guardStore (Some (storedRecord Processing None)))
   \<and> ingestExerciseEvent (requestClock 5000) ''POST''
        (testRequest ''key-1'' ''event-1'' Start 1000 1) claimedStore
     = (\<lparr>http_status = 409, http_body = ErrorBody ''Request is already being processed''\<rparr>,
        claimedStore)"
proof -
  have a: "idempotency (guardStore (Some (storedRecord Processing None))) ''k1''
          = Some (storedRecord Processing None)"
    by (simp add: guardStore_def)
  have b: "check_at (clockAt 5000) < expiresAt (storedRecord Processing None)"
    by (simp add: clockAt_def storedRecord_def)
  have c: "status (storedRecord Processing None) = Processing"
    and d: "processingStartedAt (storedRecord Processing None) = Some 1000"
    by (simp_all add: storedRecord_def)
  have e: "check_at (clockAt 5000) - 1000 \<le> PROCESSING_TIMEOUT_MS"
    by (simp add: clockAt_def PROCESSING_TIMEOUT_MS_def)
  note main = concurrent_request_rejected [OF a b c d e, of numberTruthy "''payload''" "answer 7"]
  have v: "validatePayload (validated_at (requestClock 5000))
             (testRequest ''key-1'' ''event-1'' Start 1000 1)
           = (None, testRequest ''key-1'' ''event-1'' Start 1000 1)"
    by (simp add: requestClock_def testRequest_valid)
  have k: "idempotencyKey (testRequest ''key-1'' ''event-1'' Start 1000 1) = ''key-1''"
    by (simp add: testRequest_def)
  have r: "check_at (guard_times (requestClock 5000))
             < expiresAt (newRecord 1000 ''key-1'' (testRequest ''key-1'' ''event-1'' Start 1000 1))"
    "status (newRecord 1000 ''key-1'' (testRequest ''key-1'' ''event-1'' Start 1000 1)) = Processing"
    "processingStartedAt (newRecord 1000 ''key-1'' (testRequest ''key-1'' ''event-1'' Start 1000 1))
       = Some 1000"
    "check_at (guard_times (requestClock 5000)) - 1000 \<le> PROCESSING_TIMEOUT_MS"
    by (simp_all add: requestClock_def clockAt_def newRecord_def EXPIRY_HOURS_def
        PROCESSING_TIMEOUT_MS_def)
  from main v k r claimedStore_record show ?thesis
    by metis
qed


subsection \<open>The merge transaction, branch by branch\<close>

lemma processEvent_duplicate:
  "events st (eventId payload) = Some e \<Longrightarrow>
   processEvent now commit payload st
     = (Inr (alreadyProcessed payload), logMetrics ''duplicate_event'' st)"
  by (simp add: processEvent_def)

lemma processEvent_existing:
  "events st (eventId payload) = None \<Longrightarrow> sessions st (sessionId payload) = Some session \<Longrightarrow>
   processEvent now commit payload st
     = commitMerge commit payload (fst (mergeExisting now commit session payload))
         (snd (mergeExisting now commit session payload)) st"
  by (simp add: processEvent_def split: prod.splits)

lemma processEvent_new:
  "events st (eventId payload) = None \<Longrightarrow> sessions st (sessionId payload) = None \<Longrightarrow>
   eventType payload = Start \<Longrightarrow>
   processEvent now commit payload st
     = commitMerge commit payload (createNewSession commit payload) False st"
  by (simp add: processEvent_def)

lemma processEvent_idempotency:
  "idempotency (snd (processEvent now commit payload st)) = idempotency st"
  by (simp add: processEvent_def commitMerge_def logMetrics_def Let_def
      split: option.splits prod.splits)

lemma processEvent_Inr_event:
  "fst (processEvent now commit payload st) = Inr r \<Longrightarrow>
   events (snd (processEvent now commit payload st)) (eventId payload) \<noteq> None"
  by (auto simp add: processEvent_def commitMerge_def logMetrics_def Let_def
      split: option.splits prod.splits if_splits)

lemma snd_mergeExisting:
  "snd (mergeExisting now commit session payload)
     = (sequenceOutOfOrder session payload \<or> timeOutOfOrder session payload)"
  by (simp add: mergeExisting_def Let_def timeOutOfOrder_def flagOutOfOrder_def)

lemma fst_mergeExisting_flagged:
  "sequenceOutOfOrder session payload \<or> timeOutOfOrder session payload \<Longrightarrow>
   fst (mergeExisting now commit session payload)
     = updateTracking payload (flagOutOfOrder session)"
  by (auto simp add: mergeExisting_def Let_def timeOutOfOrder_def flagOutOfOrder_def)

lemma fst_mergeExisting_accepted:
  "\<not> sequenceOutOfOrder session payload \<Longrightarrow> \<not> timeOutOfOrder session payload \<Longrightarrow>
   fst (mergeExisting now commit session payload)
     = updateTracking payload (updateSessionMetrics now commit session payload)"
  by (simp add: mergeExisting_def Let_def)

lemma updateTracking_fields:
  "version (updateTracking p s) = version s"
  "lastUpdated (updateTracking p s) = lastUpdated s"
  "s_metrics (updateTracking p s) = s_metrics s"
  "requiresReconciliation (updateTracking p s) = requiresReconciliation s"
  "reconciliationReason (updateTracking p s) = reconciliationReason s"
  by (simp_all add: updateTracking_def Let_def)

lemma updateTracking_watermark:
  "lastEventSequence (updateTracking p s)
     = Some (max (js_or (lastEventSequence s) 0) (js_or (eventSequence p) 0))"
  "lastEventTime (updateTracking p s)
     = Some (case lastEventTime s of None \<Rightarrow> timestamp p | Some t \<Rightarrow> max t (timestamp p))"
  by (auto simp add: updateTracking_def Let_def split: option.splits)

lemma markClockDrift_fields:
  "version (markClockDrift p s) = version s"
  "lastUpdated (markClockDrift p s) = lastUpdated s"
  "s_metrics (markClockDrift p s) = s_metrics s"
  "s_status (markClockDrift p s) = s_status s"
  "lastEventSequence (markClockDrift p s) = lastEventSequence s"
  "lastEventTime (markClockDrift p s) = lastEventTime s"
  by (simp_all add: markClockDrift_def)

lemma markClockDrift_flagged:
  "requiresReconciliation s = Some True \<Longrightarrow> markClockDrift p s = s"
  by (simp add: markClockDrift_def js_true_def)

lemma flagOutOfOrder_fields:
  "version (flagOutOfOrder s) = version s"
  "lastUpdated (flagOutOfOrder s) = lastUpdated s"
  "s_metrics (flagOutOfOrder s) = s_metrics s"
  "lastEventSequence (flagOutOfOrder s) = lastEventSequence s"
  "lastEventTime (flagOutOfOrder s) = lastEventTime s"
  "requiresReconciliation (flagOutOfOrder s) = Some True"
  "reconciliationReason (flagOutOfOrder s) = Some OutOfOrder"
  by (simp_all add: flagOutOfOrder_def)

lemma updateSessionMetrics_fields:
  "version (updateSessionMetrics now commit s p) = version s + 1"
  "lastUpdated (updateSessionMetrics now commit s p) = commit"
  "lastEventSequence (updateSessionMetrics now commit s p) = lastEventSequence s"
  "lastEventTime (updateSessionMetrics now commit s p) = lastEventTime s"
  "requiresReconciliation (updateSessionMetrics now commit s p) = requiresReconciliation s"
  "reconciliationReason (updateSessionMetrics now commit s p) = reconciliationReason s"
  by (simp_all add: updateSessionMetrics_def Let_def split: option.splits)

lemma commitMerge_parts:
  "fst (commitMerge commit p s ooo st) = Inr (successResponse (markClockDrift p s) ooo)"
  "sessions (snd (commitMerge commit p s ooo st)) (sessionId p) = Some (markClockDrift p s)"
  "events (snd (commitMerge commit p s ooo st)) (eventId p) = Some (eventRecord commit ooo p)"
  by (simp_all add: commitMerge_def Let_def)

text \<open>The stored session after a merge into an existing session, in the two cases.\<close>

lemma stored_session_flagged:
  assumes "events st (eventId p) = None" and "sessions st (sessionId p) = Some s"
    and "sequenceOutOfOrder s p \<or> timeOutOfOrder s p"
  shows "sessions (snd (processEvent now commit p st)) (sessionId p)
           = Some (updateTracking p (flagOutOfOrder s))"
    and "events (snd (processEvent now commit p st)) (eventId p)
           = Some (eventRecord commit True p)"
    and "fst (processEvent now commit p st)
           = Inr (successResponse (updateTracking p (flagOutOfOrder s)) True)"
  using assms
  by (simp_all add: processEvent_existing commitMerge_parts fst_mergeExisting_flagged
      snd_mergeExisting markClockDrift_flagged updateTracking_fields flagOutOfOrder_fields)

lemma stored_session_accepted:
  assumes "events st (eventId p) = None" and "sessions st (sessionId p) = Some s"
    and "\<not> sequenceOutOfOrder s p" and "\<not> timeOutOfOrder s p"
  shows "sessions (snd (processEvent now commit p st)) (sessionId p)
           = Some (markClockDrift p (updateTracking p (updateSessionMetrics now commit s p)))"
    and "events (snd (processEvent now commit p st)) (eventId p)
           = Some (eventRecord commit False p)"
  using assms
  by (simp_all add: processEvent_existing commitMerge_parts fst_mergeExisting_accepted
      snd_mergeExisting)

subsection \<open>Sample stores\<close>

lemma startedStore_session:
  "sessions (startedStore n) ''session-1''
     = Some (createNewSession 1000 (testRequest ''key-1'' ''event-1'' Start 1000 n))"
  by (simp add: startedStore_def processEvent_def emptyStore_def testRequest_def
      commitMerge_def markClockDrift_def js_true_def Let_def)

lemma startedStore_events:
  "events (startedStore n) ''event-2'' = None"
  by (simp add: startedStore_def processEvent_def emptyStore_def testRequest_def
      commitMerge_def Let_def)

lemma driftedStore_session:
  "sessions (driftedStore n) ''session-1''
     = Some ((createNewSession 1000 (testRequest ''key-1'' ''event-1'' Start 1000 n))
               \<lparr>requiresReconciliation := Some True, reconciliationReason := Some ClockDrift\<rparr>)"
  by (simp add: driftedStore_def processEvent_def emptyStore_def testRequest_def
      commitMerge_def markClockDrift_def js_true_def Let_def createNewSession_def metric_def)

lemma driftedStore_events:
  "events (driftedStore n) ''event-2'' = None"
  by (simp add: driftedStore_def processEvent_def emptyStore_def testRequest_def
      commitMerge_def Let_def)

lemma testRequest_ids:
  "sessionId (testRequest k e ty ts n) = ''session-1''"
  "eventId (testRequest k e ty ts n) = e"
  "eventSequence (testRequest k e ty ts n) = Some n"
  "timestamp (testRequest k e ty ts n) = ts"
  "idempotencyKey (testRequest k e ty ts n) = k"
  by (simp_all add: testRequest_def)

lemma created_tracking:
  "lastEventSequence (createNewSession c (testRequest k e ty ts n)) = Some n"
  "lastEventTime (createNewSession c (testRequest k e ty ts n)) = Some ts"
  "version (createNewSession c (testRequest k e ty ts n)) = 1"
  "lastUpdated (createNewSession c (testRequest k e ty ts n)) = c"
  by (simp_all add: createNewSession_def testRequest_def js_or_def)


subsection \<open>Out-of-order detection\<close>

lemma sequenceOutOfOrder_iff:
  "sequenceOutOfOrder s p
     = (\<exists>a b. eventSequence p = Some a \<and> lastEventSequence s = Some b
              \<and> a \<noteq> 0 \<and> b \<noteq> 0 \<and> a \<le> b)"
  by (auto simp add: sequenceOutOfOrder_def js_truthy_def js_or_def split: option.splits)

text \<open>
  C5, amended. A new event merged into an existing session, whose sequence number and the
  session's \<open>lastEventSequence\<close> are both present and both non-zero, with the event's number
  at most the session's, is flagged out-of-order: the Event document is written with
  \<open>outOfOrder = true\<close>, the stored session has \<open>requiresReconciliation = true\<close> and
  \<open>reconciliationReason = 'out_of_order'\<close>, and the session's metrics are the ones it had.
\<close>

theorem out_of_order_by_sequence:
  assumes "events st (eventId p) = None" and "sessions st (sessionId p) = Some s"
    and "eventSequence p = Some a" and "lastEventSequence s = Some b"
    and "a \<noteq> 0" and "b \<noteq> 0" and "a \<le> b"
  shows "\<exists>s' ev. sessions (snd (processEvent now commit p st)) (sessionId p) = Some s'
      \<and> events (snd (processEvent now commit p st)) (eventId p) = Some ev
      \<and> outOfOrder ev = Some True
      \<and> requiresReconciliation s' = Some True
      \<and> reconciliationReason s' = Some OutOfOrder
      \<and> s_metrics s' = s_metrics s"
proof -
  have "sequenceOutOfOrder s p"
    using assms(3-7) by (simp add: sequenceOutOfOrder_iff)
  then have flagged: "sequenceOutOfOrder s p \<or> timeOutOfOrder s p" ..
  show ?thesis
    using stored_session_flagged(1,2) [OF assms(1,2) flagged]
    by (simp add: updateTracking_fields flagOutOfOrder_fields eventRecord_def)
qed

theorem out_of_order_by_sequence_witness:
  "map_option outOfOrder
     (events (snd (processEvent 2000 2000 (testRequest ''key-2'' ''event-2'' Update 2000 2)
        (startedStore 3))) ''event-2'') = Some (Some True)
   \<and> map_option reconciliationReason
     (sessions (snd (processEvent 2000 2000 (testRequest ''key-2'' ''event-2'' Update 2000 2)
        (startedStore 3))) ''session-1'') = Some (Some OutOfOrder)
   \<and> map_option (caloriesBurned \<circ> s_metrics)
     (sessions (snd (processEvent 2000 2000 (testRequest ''key-2'' ''event-2'' Update 2000 2)
        (startedStore 3))) ''session-1'') = Some 10"
proof -
  let ?p = "testRequest ''key-2'' ''event-2'' Update 2000 2"
  let ?s = "createNewSession 1000 (testRequest ''key-1'' ''event-1'' Start 1000 3)"
  have a: "events (startedStore 3) (eventId ?p) = None"
    by (simp add: testRequest_ids startedStore_events)
  have b: "sessions (startedStore 3) (sessionId ?p) = Some ?s"
    by (simp add: testRequest_ids startedStore_session)
  have c: "eventSequence ?p = Some 2" and d: "lastEventSequence ?s = Some 3"
    by (simp_all add: testRequest_ids created_tracking)
  have e: "(2::int) \<noteq> 0" "(3::int) \<noteq> 0" "(2::int) \<le> 3"
    by simp_all
  from out_of_order_by_sequence [OF a b c d e, of 2000 2000]
  obtain s' ev where
    "sessions (snd (processEvent 2000 2000 ?p (startedStore 3))) (sessionId ?p) = Some s'"
    "events (snd (processEvent 2000 2000 ?p (startedStore 3))) (eventId ?p) = Some ev"
    "outOfOrder ev = Some True" "reconciliationReason s' = Some OutOfOrder"
    "s_metrics s' = s_metrics ?s"
    by blast
  then show ?thesis
    by (simp add: testRequest_ids createNewSession_def testRequest_def testMetrics_def
        metric_def js_or_def)
qed

theorem sequence_zero_not_flagged_counterexample:
  "events (startedStore 5) ''event-2'' = None
   \<and> map_option lastEventSequence (sessions (startedStore 5) ''session-1'') = Some (Some 5)
   \<and> eventSequence (testRequest ''key-2'' ''event-2'' Update 2000 0) = Some 0
   \<and> (0::int) \<le> 5
   \<and> map_option outOfOrder
     (events (snd (processEvent 2000 2000 (testRequest ''key-2'' ''event-2'' Update 2000 0)
        (startedStore 5))) ''event-2'') = Some (Some False)
   \<and> map_option requiresReconciliation
     (sessions (snd (processEvent 2000 2000 (testRequest ''key-2'' ''event-2'' Update 2000 0)
        (startedStore 5))) ''session-1'') = Some None
   \<and> map_option (caloriesBurned \<circ> s_metrics) (sessions (startedStore 5) ''session-1'')
       = Some 10
   \<and> map_option (caloriesBurned \<circ> s_metrics)
     (sessions (snd (processEvent 2000 2000 (testRequest ''key-2'' ''event-2'' Update 2000 0)
        (startedStore 5))) ''session-1'') = Some 20"
proof -
  let ?p = "testRequest ''key-2'' ''event-2'' Update 2000 0"
  let ?s = "createNewSession 1000 (testRequest ''key-1'' ''event-1'' Start 1000 5)"
  have a: "events (startedStore 5) (eventId ?p) = None"
    by (simp add: testRequest_ids startedStore_events)
  have b: "sessions (startedStore 5) (sessionId ?p) = Some ?s"
    by (simp add: testRequest_ids startedStore_session)
  have c: "\<not> sequenceOutOfOrder ?s ?p"
    by (simp add: sequenceOutOfOrder_iff testRequest_ids)
  have d: "\<not> timeOutOfOrder ?s ?p"
    by (simp add: timeOutOfOrder_def testRequest_ids created_tracking)
  have e: "caloriesBurned (s_metrics ?s) = 10"
    by (simp add: createNewSession_def testRequest_def testMetrics_def metric_def js_or_def)
  have f: "caloriesBurned (s_metrics (updateSessionMetrics 2000 2000 ?s ?p)) = 20"
    by (simp add: updateSessionMetrics_def createNewSession_def testRequest_def
        testMetrics_def metric_def js_or_def js_truthy_def Let_def addCalories_def
        maxDistance_def foldHeartRate_def recalcDuration_def)
  have g: "requiresReconciliation ?s = None"
    by (simp add: createNewSession_def)
  have h: "markClockDrift ?p = (\<lambda>x. x)"
    by (simp add: markClockDrift_def testRequest_def js_true_def fun_eq_iff)
  have S: "sessions (snd (processEvent 2000 2000 ?p (startedStore 5))) ''session-1''
             = Some (updateTracking ?p (updateSessionMetrics 2000 2000 ?s ?p))"
    using stored_session_accepted(1) [OF a b c d, of 2000 2000] by (simp add: testRequest_ids h)
  have E: "events (snd (processEvent 2000 2000 ?p (startedStore 5))) ''event-2''
             = Some (eventRecord 2000 False ?p)"
    using stored_session_accepted(2) [OF a b c d, of 2000 2000] by (simp add: testRequest_ids)
  show ?thesis
    by (simp add: S E e f g startedStore_events startedStore_session created_tracking
        testRequest_ids eventRecord_def updateTracking_fields updateSessionMetrics_fields)
qed


subsection \<open>Reconciliation reason\<close>

text \<open>
  C6, amended. After the merge of a new event into an existing session: an event flagged
  out-of-order sets the reason to \<open>'out_of_order'\<close>, whatever reason was recorded before;
  an event that is not flagged leaves the reason of a session whose
  \<open>requiresReconciliation\<close> is already true as it was; and the reason becomes
  \<open>'clock_drift'\<close> only when the event carries the clock-drift indicator and the session's
  \<open>requiresReconciliation\<close> was not already true.
\<close>

theorem reconciliation_reason_after_merge:
  assumes "events st (eventId p) = None" and "sessions st (sessionId p) = Some s"
  shows "\<exists>s'. sessions (snd (processEvent now commit p st)) (sessionId p) = Some s'
      \<and> (sequenceOutOfOrder s p \<or> timeOutOfOrder s p
           \<longrightarrow> reconciliationReason s' = Some OutOfOrder)
      \<and> (\<not> (sequenceOutOfOrder s p \<or> timeOutOfOrder s p)
           \<and> requiresReconciliation s = Some True
           \<longrightarrow> reconciliationReason s' = reconciliationReason s)
      \<and> (reconciliationReason s' = Some ClockDrift \<and> reconciliationReason s \<noteq> Some ClockDrift
           \<longrightarrow> p_requiresReconciliation p = Some True
               \<and> requiresReconciliation s \<noteq> Some True)"
proof (cases "sequenceOutOfOrder s p \<or> timeOutOfOrder s p")
  case True
  show ?thesis
    using stored_session_flagged(1) [OF assms True] True
    by (simp add: updateTracking_fields flagOutOfOrder_fields)
next
  case False
  then have "\<not> sequenceOutOfOrder s p" and "\<not> timeOutOfOrder s p"
    by simp_all
  from stored_session_accepted(1) [OF assms this] False show ?thesis
    by (simp add: markClockDrift_def js_true_def updateTracking_fields
        updateSessionMetrics_fields)
qed

theorem reconciliation_reason_after_merge_witness:
  "map_option reconciliationReason
     (sessions (snd (processEvent 2000 2000 (testRequest ''key-2'' ''event-2'' Update 2000 4)
        (driftedStore 3))) ''session-1'') = Some (Some ClockDrift)
   \<and> map_option reconciliationReason
     (sessions (snd (processEvent 2000 2000 (testRequest ''key-2'' ''event-2'' Update 2000 2)
        (startedStore 3))) ''session-1'') = Some (Some OutOfOrder)
   \<and> map_option reconciliationReason
     (sessions (snd (processEvent 2000 2000
        ((testRequest ''key-2'' ''event-2'' Update 2000 4)\<lparr>p_requiresReconciliation := Some True\<rparr>)
        (startedStore 3))) ''session-1'') = Some (Some ClockDrift)
   \<and> p_requiresReconciliation
        ((testRequest ''key-2'' ''event-2'' Update 2000 4)\<lparr>p_requiresReconciliation := Some True\<rparr>)
       = Some True
   \<and> map_option requiresReconciliation (sessions (startedStore 3) ''session-1'') = Some None"
proof -
  let ?p = "testRequest ''key-2'' ''event-2'' Update 2000 4"
  let ?q = "testRequest ''key-2'' ''event-2'' Update 2000 2"
  let ?r = "(testRequest ''key-2'' ''event-2'' Update 2000 4)\<lparr>p_requiresReconciliation := Some True\<rparr>"
  let ?s = "(createNewSession 1000 (testRequest ''key-1'' ''event-1'' Start 1000 3))
              \<lparr>requiresReconciliation := Some True, reconciliationReason := Some ClockDrift\<rparr>"
  let ?t = "createNewSession 1000 (testRequest ''key-1'' ''event-1'' Start 1000 3)"
  have a: "events (driftedStore 3) (eventId ?p) = None"
    by (simp add: testRequest_ids driftedStore_events)
  have b: "sessions (driftedStore 3) (sessionId ?p) = Some ?s"
    by (simp add: testRequest_ids driftedStore_session)
  have c: "\<not> (sequenceOutOfOrder ?s ?p \<or> timeOutOfOrder ?s ?p)"
    by (simp add: sequenceOutOfOrder_iff timeOutOfOrder_def testRequest_ids created_tracking)
  have d: "requiresReconciliation ?s = Some True" "reconciliationReason ?s = Some ClockDrift"
    by simp_all
  from reconciliation_reason_after_merge [OF a b, of 2000 2000] c d
  obtain s' where
    "sessions (snd (processEvent 2000 2000 ?p (driftedStore 3))) (sessionId ?p) = Some s'"
    "reconciliationReason s' = Some ClockDrift"
    by auto
  then have kept: "map_option reconciliationReason
     (sessions (snd (processEvent 2000 2000 ?p (driftedStore 3))) ''session-1'')
       = Some (Some ClockDrift)"
    by (simp add: testRequest_ids)
  have a2: "events (startedStore 3) (eventId ?q) = None"
    by (simp add: testRequest_ids startedStore_events)
  have b2: "sessions (startedStore 3) (sessionId ?q) = Some ?t"
    by (simp add: testRequest_ids startedStore_session)
  have c2: "sequenceOutOfOrder ?t ?q \<or> timeOutOfOrder ?t ?q"
    by (simp add: sequenceOutOfOrder_iff testRequest_ids created_tracking)
  from reconciliation_reason_after_merge [OF a2 b2, of 2000 2000] c2
  obtain s2 where
    "sessions (snd (processEvent 2000 2000 ?q (startedStore 3))) (sessionId ?q) = Some s2"
    "reconciliationReason s2 = Some OutOfOrder"
    by auto
  then have flagged: "map_option reconciliationReason
     (sessions (snd (processEvent 2000 2000 ?q (startedStore 3))) ''session-1'')
       = Some (Some OutOfOrder)"
    by (simp add: testRequest_ids)
  have ids: "sessionId ?r = ''session-1''" "eventId ?r = ''event-2''"
    "eventSequence ?r = Some 4" "timestamp ?r = 2000" "p_requiresReconciliation ?r = Some True"
    by (simp_all add: testRequest_def)
  have a3: "events (startedStore 3) (eventId ?r) = None"
    by (simp add: ids startedStore_events)
  have b3: "sessions (startedStore 3) (sessionId ?r) = Some ?t"
    by (simp add: ids startedStore_session)
  have c3: "\<not> sequenceOutOfOrder ?t ?r" "\<not> timeOutOfOrder ?t ?r"
    by (simp_all add: sequenceOutOfOrder_iff timeOutOfOrder_def ids created_tracking)
  have e3: "requiresReconciliation ?t = None" "reconciliationReason ?t = None"
    by (simp_all add: createNewSession_def)
  have marked: "map_option reconciliationReason
     (sessions (snd (processEvent 2000 2000 ?r (startedStore 3))) ''session-1'')
       = Some (Some ClockDrift)"
    using stored_session_accepted(1) [OF a3 b3 c3, of 2000 2000]
    by (simp add: ids markClockDrift_def js_true_def updateTracking_fields
        updateSessionMetrics_fields e3)
  then obtain s3 where s3: "sessions (snd (processEvent 2000 2000 ?r (startedStore 3))) ''session-1''
      = Some s3" "reconciliationReason s3 = Some ClockDrift"
    by auto
  from reconciliation_reason_after_merge [OF a3 b3, of 2000 2000] s3 e3
  have "p_requiresReconciliation ?r = Some True \<and> requiresReconciliation ?t \<noteq> Some True"
    by (auto simp add: ids)
  with kept flagged marked e3 show ?thesis
    by (simp add: startedStore_session)
qed

theorem clock_drift_overwritten_counterexample:
  "map_option reconciliationReason (sessions (driftedStore 3) ''session-1'')
     = Some (Some ClockDrift)
   \<and> events (driftedStore 3) ''event-2'' = None
   \<and> map_option reconciliationReason
     (sessions (snd (processEvent 2000 2000 (testRequest ''key-2'' ''event-2'' Update 2000 2)
        (driftedStore 3))) ''session-1'') = Some (Some OutOfOrder)"
proof -
  let ?p = "testRequest ''key-2'' ''event-2'' Update 2000 2"
  let ?s = "(createNewSession 1000 (testRequest ''key-1'' ''event-1'' Start 1000 3))
              \<lparr>requiresReconciliation := Some True, reconciliationReason := Some ClockDrift\<rparr>"
  have a: "events (driftedStore 3) (eventId ?p) = None"
    by (simp add: testRequest_ids driftedStore_events)
  have b: "sessions (driftedStore 3) (sessionId ?p) = Some ?s"
    by (simp add: testRequest_ids driftedStore_session)
  have c: "sequenceOutOfOrder ?s ?p \<or> timeOutOfOrder ?s ?p"
    by (simp add: sequenceOutOfOrder_iff testRequest_ids created_tracking)
  have S: "sessions (snd (processEvent 2000 2000 ?p (driftedStore 3))) ''session-1''
             = Some (updateTracking ?p (flagOutOfOrder ?s))"
    using stored_session_flagged(1) [OF a b c, of 2000 2000] by (simp add: testRequest_ids)
  show ?thesis
    by (simp add: S driftedStore_session driftedStore_events updateTracking_fields
        flagOutOfOrder_fields)
qed

subsection \<open>Version and watermark\<close>

text \<open>
  C7, amended. A successful merge of a non-duplicate event into an existing session that is
  not flagged out-of-order increments the session's \<open>version\<close> by exactly one and sets
  \<open>lastUpdated\<close> to the commit time; a merge that is flagged out-of-order leaves \<open>version\<close>
  and \<open>lastUpdated\<close> as they were.
\<close>

theorem version_bumped_unless_out_of_order:
  assumes "events st (eventId p) = None" and "sessions st (sessionId p) = Some s"
  shows "\<exists>s'. sessions (snd (processEvent now commit p st)) (sessionId p) = Some s'
      \<and> (if sequenceOutOfOrder s p \<or> timeOutOfOrder s p
          then version s' = version s \<and> lastUpdated s' = lastUpdated s
          else version s' = version s + 1 \<and> lastUpdated s' = commit)"
proof (cases "sequenceOutOfOrder s p \<or> timeOutOfOrder s p")
  case True
  show ?thesis
    using stored_session_flagged(1) [OF assms True] True
    by (simp add: updateTracking_fields flagOutOfOrder_fields)
next
  case False
  then have "\<not> sequenceOutOfOrder s p" and "\<not> timeOutOfOrder s p"
    by simp_all
  from stored_session_accepted(1) [OF assms this] False show ?thesis
    by (simp add: markClockDrift_fields updateTracking_fields updateSessionMetrics_fields)
qed

theorem version_bumped_unless_out_of_order_witness:
  "map_option version
     (sessions (snd (processEvent 2000 2500 (testRequest ''key-2'' ''event-2'' Update 2000 4)
        (startedStore 3))) ''session-1'') = Some 2
   \<and> map_option lastUpdated
     (sessions (snd (processEvent 2000 2500 (testRequest ''key-2'' ''event-2'' Update 2000 4)
        (startedStore 3))) ''session-1'') = Some 2500
   \<and> map_option version
     (sessions (snd (processEvent 2000 2500 (testRequest ''key-2'' ''event-2'' Update 900 4)
        (startedStore 3))) ''session-1'') = Some 1"
proof -
  let ?p = "testRequest ''key-2'' ''event-2'' Update 2000 4"
  let ?q = "testRequest ''key-2'' ''event-2'' Update 900 4"
  let ?s = "createNewSession 1000 (testRequest ''key-1'' ''event-1'' Start 1000 3)"
  have a: "events (startedStore 3) (eventId ?p) = None"
    by (simp add: testRequest_ids startedStore_events)
  have b: "sessions (startedStore 3) (sessionId ?p) = Some ?s"
    by (simp add: testRequest_ids startedStore_session)
  have c: "\<not> (sequenceOutOfOrder ?s ?p \<or> timeOutOfOrder ?s ?p)"
    by (simp add: sequenceOutOfOrder_iff timeOutOfOrder_def testRequest_ids created_tracking)
  from version_bumped_unless_out_of_order [OF a b, of 2000 2500] c
  obtain s' where
    "sessions (snd (processEvent 2000 2500 ?p (startedStore 3))) (sessionId ?p) = Some s'"
    "version s' = version ?s + 1" "lastUpdated s' = 2500"
    by auto
  then have accepted: "map_option version
       (sessions (snd (processEvent 2000 2500 ?p (startedStore 3))) ''session-1'') = Some 2
     \<and> map_option lastUpdated
       (sessions (snd (processEvent 2000 2500 ?p (startedStore 3))) ''session-1'') = Some 2500"
    by (simp add: testRequest_ids created_tracking)
  have a2: "events (startedStore 3) (eventId ?q) = None"
    by (simp add: testRequest_ids startedStore_events)
  have b2: "sessions (startedStore 3) (sessionId ?q) = Some ?s"
    by (simp add: testRequest_ids startedStore_session)
  have c2: "sequenceOutOfOrder ?s ?q \<or> timeOutOfOrder ?s ?q"
    by (simp add: timeOutOfOrder_def testRequest_ids created_tracking)
  from version_bumped_unless_out_of_order [OF a2 b2, of 2000 2500] c2
  obtain s2 where
    "sessions (snd (processEvent 2000 2500 ?q (startedStore 3))) (sessionId ?q) = Some s2"
    "version s2 = version ?s"
    by auto
  then have "map_option version
       (sessions (snd (processEvent 2000 2500 ?q (startedStore 3))) ''session-1'') = Some 1"
    by (simp add: testRequest_ids created_tracking)
  with accepted show ?thesis
    by simp
qed

theorem version_kept_when_out_of_order_counterexample:
  "map_option version (sessions (startedStore 3) ''session-1'') = Some 1
   \<and> events (startedStore 3) ''event-2'' = None
   \<and> fst (processEvent 2000 2500 (testRequest ''key-2'' ''event-2'' Update 2000 2)
        (startedStore 3))
     = Inr (successResponse
         (updateTracking (testRequest ''key-2'' ''event-2'' Update 2000 2)
            (flagOutOfOrder (createNewSession 1000 (testRequest ''key-1'' ''event-1'' Start 1000 3))))
         True)
   \<and> map_option version
     (sessions (snd (processEvent 2000 2500 (testRequest ''key-2'' ''event-2'' Update 2000 2)
        (startedStore 3))) ''session-1'') = Some 1
   \<and> map_option lastUpdated
     (sessions (snd (processEvent 2000 2500 (testRequest ''key-2'' ''event-2'' Update 2000 2)
        (startedStore 3))) ''session-1'') = Some 1000"
proof -
  let ?p = "testRequest ''key-2'' ''event-2'' Update 2000 2"
  let ?s = "createNewSession 1000 (testRequest ''key-1'' ''event-1'' Start 1000 3)"
  have a: "events (startedStore 3) (eventId ?p) = None"
    by (simp add: testRequest_ids startedStore_events)
  have b: "sessions (startedStore 3) (sessionId ?p) = Some ?s"
    by (simp add: testRequest_ids startedStore_session)
  have c: "sequenceOutOfOrder ?s ?p \<or> timeOutOfOrder ?s ?p"
    by (simp add: sequenceOutOfOrder_iff testRequest_ids created_tracking)
  have S: "sessions (snd (processEvent 2000 2500 ?p (startedStore 3))) ''session-1''
             = Some (updateTracking ?p (flagOutOfOrder ?s))"
    using stored_session_flagged(1) [OF a b c, of 2000 2500] by (simp add: testRequest_ids)
  have R: "fst (processEvent 2000 2500 ?p (startedStore 3))
             = Inr (successResponse (updateTracking ?p (flagOutOfOrder ?s)) True)"
    using stored_session_flagged(3) [OF a b c, of 2000 2500] .
  show ?thesis
    by (simp add: S R startedStore_session startedStore_events updateTracking_fields
        flagOutOfOrder_fields created_tracking)
qed

text \<open>
  C8. After the merge of a non-duplicate event into an existing session, flagged or not,
  \<open>lastEventSequence\<close> is the maximum of the previous value and the event's sequence number
  (an absent number counting as 0), \<open>lastEventTime\<close> is the maximum of the previous value
  and the event's timestamp (the timestamp when there was none), and neither is below its
  previous value.
\<close>

theorem watermark_never_decreases:
  assumes "events st (eventId p) = None" and "sessions st (sessionId p) = Some s"
  shows "\<exists>s'. sessions (snd (processEvent now commit p st)) (sessionId p) = Some s'
      \<and> lastEventSequence s'
          = Some (max (case lastEventSequence s of None \<Rightarrow> 0 | Some n \<Rightarrow> n)
                      (case eventSequence p of None \<Rightarrow> 0 | Some n \<Rightarrow> n))
      \<and> lastEventTime s'
          = Some (case lastEventTime s of None \<Rightarrow> timestamp p | Some t \<Rightarrow> max t (timestamp p))
      \<and> (\<forall>n. lastEventSequence s = Some n
              \<longrightarrow> (\<exists>n'. lastEventSequence s' = Some n' \<and> n \<le> n'))
      \<and> (\<forall>t. lastEventTime s = Some t \<longrightarrow> (\<exists>t'. lastEventTime s' = Some t' \<and> t \<le> t'))"
proof (cases "sequenceOutOfOrder s p \<or> timeOutOfOrder s p")
  case True
  show ?thesis
    using stored_session_flagged(1) [OF assms True]
    by (simp add: updateTracking_watermark flagOutOfOrder_fields js_or_zero)
next
  case False
  then have "\<not> sequenceOutOfOrder s p" and "\<not> timeOutOfOrder s p"
    by simp_all
  from stored_session_accepted(1) [OF assms this] show ?thesis
    by (simp add: markClockDrift_fields updateTracking_watermark updateSessionMetrics_fields
        js_or_zero)
qed

theorem watermark_never_decreases_witness:
  "map_option lastEventSequence
     (sessions (snd (processEvent 2000 2000 (testRequest ''key-2'' ''event-2'' Update 900 2)
        (startedStore 3))) ''session-1'') = Some (Some 3)
   \<and> map_option lastEventTime
     (sessions (snd (processEvent 2000 2000 (testRequest ''key-2'' ''event-2'' Update 900 2)
        (startedStore 3))) ''session-1'') = Some (Some 1000)"
proof -
  let ?p = "testRequest ''key-2'' ''event-2'' Update 900 2"
  let ?s = "createNewSession 1000 (testRequest ''key-1'' ''event-1'' Start 1000 3)"
  have a: "events (startedStore 3) (eventId ?p) = None"
    by (simp add: testRequest_ids startedStore_events)
  have b: "sessions (startedStore 3) (sessionId ?p) = Some ?s"
    by (simp add: testRequest_ids startedStore_session)
  from watermark_never_decreases [OF a b, of 2000 2000]
  obtain s' where
    "sessions (snd (processEvent 2000 2000 ?p (startedStore 3))) (sessionId ?p) = Some s'"
    "lastEventSequence s'
       = Some (max (case lastEventSequence ?s of None \<Rightarrow> 0 | Some n \<Rightarrow> n)
                   (case eventSequence ?p of None \<Rightarrow> 0 | Some n \<Rightarrow> n))"
    "lastEventTime s'
       = Some (case lastEventTime ?s of None \<Rightarrow> timestamp ?p | Some t \<Rightarrow> max t (timestamp ?p))"
    by blast
  then show ?thesis
    by (simp add: testRequest_ids created_tracking)
qed


subsection \<open>Heart rate\<close>

lemma heart_fields_addCalories:
  "heartRateAvg (addCalories m sm) = heartRateAvg sm"
  "heartRateDataPoints (addCalories m sm) = heartRateDataPoints sm"
  by (simp_all add: addCalories_def split: option.splits)

lemma heart_fields_maxDistance:
  "heartRateAvg (maxDistance m sm) = heartRateAvg sm"
  "heartRateDataPoints (maxDistance m sm) = heartRateDataPoints sm"
  by (simp_all add: maxDistance_def split: option.splits)

lemma foldHeartRate_reads_heart_fields:
  assumes "heartRateAvg sm = heartRateAvg sm'"
    and "heartRateDataPoints sm = heartRateDataPoints sm'"
  shows "heartRateAvg (foldHeartRate m sm) = heartRateAvg (foldHeartRate m sm')"
    and "heartRateDataPoints (foldHeartRate m sm) = heartRateDataPoints (foldHeartRate m sm')"
  using assms by (simp_all add: foldHeartRate_def Let_def split: option.splits)

lemma updateSessionMetrics_folded:
  assumes "metrics p = Some m"
  shows "heartRateAvg (s_metrics (updateSessionMetrics now commit s p))
           = heartRateAvg (foldHeartRate m (maxDistance m (addCalories m (s_metrics s))))"
    and "heartRateDataPoints (s_metrics (updateSessionMetrics now commit s p))
           = heartRateDataPoints (foldHeartRate m (maxDistance m (addCalories m (s_metrics s))))"
  using assms by (simp_all add: updateSessionMetrics_def Let_def)

lemma updateSessionMetrics_heart:
  assumes "metrics p = Some m"
  shows "heartRateAvg (s_metrics (updateSessionMetrics now commit s p))
           = heartRateAvg (foldHeartRate m (s_metrics s))"
    and "heartRateDataPoints (s_metrics (updateSessionMetrics now commit s p))
           = heartRateDataPoints (foldHeartRate m (s_metrics s))"
proof -
  have c: "heartRateAvg (maxDistance m (addCalories m (s_metrics s))) = heartRateAvg (s_metrics s)"
    "heartRateDataPoints (maxDistance m (addCalories m (s_metrics s)))
       = heartRateDataPoints (s_metrics s)"
    by (simp_all add: heart_fields_maxDistance heart_fields_addCalories)
  show "heartRateAvg (s_metrics (updateSessionMetrics now commit s p))
           = heartRateAvg (foldHeartRate m (s_metrics s))"
    using foldHeartRate_reads_heart_fields(1) [OF c]
    by (simp add: updateSessionMetrics_folded [OF assms])
  show "heartRateDataPoints (s_metrics (updateSessionMetrics now commit s p))
           = heartRateDataPoints (foldHeartRate m (s_metrics s))"
    using foldHeartRate_reads_heart_fields(2) [OF c]
    by (simp add: updateSessionMetrics_folded [OF assms])
qed

lemma duration_floor: "max (js_or d 1) 1 = (case d of None \<Rightarrow> 1 | Some v \<Rightarrow> max v (1::real))"
  by (simp add: js_or_def split: option.splits)

lemma foldHeartRate_mean:
  assumes "heartRate m = Some hr" and "0 < hr" and "hr \<le> 250"
    and "0 < (case heartRateDataPoints sm of None \<Rightarrow> 0 | Some w \<Rightarrow> w)
             + (case duration m of None \<Rightarrow> 1 | Some d \<Rightarrow> max d 1)"
  shows "heartRateAvg (foldHeartRate m sm)
     = Some (((case heartRateAvg sm of None \<Rightarrow> hr | Some a \<Rightarrow> if a = 0 then hr else a)
               * (case heartRateDataPoints sm of None \<Rightarrow> 0 | Some w \<Rightarrow> w)
              + hr * (case duration m of None \<Rightarrow> 1 | Some d \<Rightarrow> max d 1))
             / ((case heartRateDataPoints sm of None \<Rightarrow> 0 | Some w \<Rightarrow> w)
                + (case duration m of None \<Rightarrow> 1 | Some d \<Rightarrow> max d 1)))"
    and "heartRateDataPoints (foldHeartRate m sm)
     = Some ((case heartRateDataPoints sm of None \<Rightarrow> 0 | Some w \<Rightarrow> w)
             + (case duration m of None \<Rightarrow> 1 | Some d \<Rightarrow> max d 1))"
proof -
  have w: "js_or (heartRateDataPoints sm) 0
             = (case heartRateDataPoints sm of None \<Rightarrow> 0 | Some w \<Rightarrow> w)"
    by (rule js_or_zero)
  have a: "js_or (heartRateAvg sm) hr
             = (case heartRateAvg sm of None \<Rightarrow> hr | Some a \<Rightarrow> if a = 0 then hr else a)"
    by (simp add: js_or_def)
  show "heartRateAvg (foldHeartRate m sm)
     = Some (((case heartRateAvg sm of None \<Rightarrow> hr | Some a \<Rightarrow> if a = 0 then hr else a)
               * (case heartRateDataPoints sm of None \<Rightarrow> 0 | Some w \<Rightarrow> w)
              + hr * (case duration m of None \<Rightarrow> 1 | Some d \<Rightarrow> max d 1))
             / ((case heartRateDataPoints sm of None \<Rightarrow> 0 | Some w \<Rightarrow> w)
                + (case duration m of None \<Rightarrow> 1 | Some d \<Rightarrow> max d 1)))"
    using assms by (simp add: foldHeartRate_def Let_def duration_floor w a)
  show "heartRateDataPoints (foldHeartRate m sm)
     = Some ((case heartRateDataPoints sm of None \<Rightarrow> 0 | Some w \<Rightarrow> w)
             + (case duration m of None \<Rightarrow> 1 | Some d \<Rightarrow> max d 1))"
    using assms by (simp add: foldHeartRate_def Let_def duration_floor w a)
qed


lemma accepted_heart_rate:
  assumes "metrics p = Some m" and "heartRate m = Some hr" and "0 < hr" and "hr \<le> 250"
    and "0 < (case heartRateDataPoints (s_metrics s) of None \<Rightarrow> 0 | Some w \<Rightarrow> w)
             + (case duration m of None \<Rightarrow> 1 | Some d \<Rightarrow> max d 1)"
  shows "heartRateAvg (s_metrics (updateSessionMetrics now commit s p))
     = Some (((case heartRateAvg (s_metrics s) of
                 None \<Rightarrow> hr | Some a \<Rightarrow> if a = 0 then hr else a)
               * (case heartRateDataPoints (s_metrics s) of None \<Rightarrow> 0 | Some w \<Rightarrow> w)
              + hr * (case duration m of None \<Rightarrow> 1 | Some d \<Rightarrow> max d 1))
             / ((case heartRateDataPoints (s_metrics s) of None \<Rightarrow> 0 | Some w \<Rightarrow> w)
                + (case duration m of None \<Rightarrow> 1 | Some d \<Rightarrow> max d 1)))"
    and "heartRateDataPoints (s_metrics (updateSessionMetrics now commit s p))
     = Some ((case heartRateDataPoints (s_metrics s) of None \<Rightarrow> 0 | Some w \<Rightarrow> w)
             + (case duration m of None \<Rightarrow> 1 | Some d \<Rightarrow> max d 1))"
  using foldHeartRate_mean [OF assms(2-5)]
  by (simp_all add: updateSessionMetrics_heart [OF assms(1)])

lemma created_heart_fields:
  assumes "metrics p = Some m" and "heartRate m = Some hr" and "hr \<noteq> 0"
    and "duration m = Some d" and "1 \<le> d"
  shows "heartRateAvg (s_metrics (createNewSession c p)) = Some hr"
    and "heartRateDataPoints (s_metrics (createNewSession c p)) = Some d"
  using assms by (simp_all add: createNewSession_def metric_def js_truthy_def js_or_def)

lemma heartRequest_metrics:
  "metrics (heartRequest e ty hr d)
     = Some \<lparr> calories = None, distance = None, heartRate = Some hr, duration = Some d \<rparr>"
  by (simp add: heartRequest_def)


subsection \<open>Session creation\<close>

lemma created_metrics:
  "caloriesBurned (s_metrics (createNewSession c p))
     = (case metric calories p of None \<Rightarrow> 0 | Some x \<Rightarrow> x)"
  "m_distance (s_metrics (createNewSession c p))
     = Some (case metric distance p of None \<Rightarrow> 0 | Some x \<Rightarrow> x)"
  "heartRateAvg (s_metrics (createNewSession c p)) = metric heartRate p"
  "heartRateDataPoints (s_metrics (createNewSession c p))
     = Some (case metric heartRate p of
               None \<Rightarrow> 0
             | Some h \<Rightarrow> if h = 0 then 0
                         else (case metric duration p of None \<Rightarrow> 1 | Some d \<Rightarrow> max d 1))"
  "totalDuration (s_metrics (createNewSession c p)) = 0"
  "version (createNewSession c p) = 1"
  "s_status (createNewSession c p) = Active"
  by (simp_all add: createNewSession_def js_or_zero js_truthy_def duration_floor
      split: option.splits)

text \<open>
  C10, amended. A start event that creates a new session seeds the stored aggregate from
  its own metrics without the aggregator's guards: \<open>caloriesBurned\<close> is the event's calories
  (0 if absent), \<open>distance\<close> is the event's distance or 0 and so always defined,
  \<open>heartRateAvg\<close> is the event's raw heart rate, \<open>heartRateDataPoints\<close> is
  \<open>max(duration, 1)\<close> (1 when no duration is reported) when a non-zero heart rate is present
  and 0 otherwise, \<open>version\<close> is 1, \<open>totalDuration\<close> is 0 and \<open>status\<close> is active.
\<close>

theorem new_session_seeded_from_start_event:
  assumes "events st (eventId p) = None" and "sessions st (sessionId p) = None"
    and "eventType p = Start"
  shows "\<exists>s'. sessions (snd (processEvent now commit p st)) (sessionId p) = Some s'
      \<and> caloriesBurned (s_metrics s') = (case metric calories p of None \<Rightarrow> 0 | Some x \<Rightarrow> x)
      \<and> m_distance (s_metrics s') = Some (case metric distance p of None \<Rightarrow> 0 | Some x \<Rightarrow> x)
      \<and> heartRateAvg (s_metrics s') = metric heartRate p
      \<and> heartRateDataPoints (s_metrics s')
          = Some (case metric heartRate p of
                    None \<Rightarrow> 0
                  | Some h \<Rightarrow> if h = 0 then 0
                              else (case metric duration p of None \<Rightarrow> 1 | Some d \<Rightarrow> max d 1))
      \<and> version s' = 1
      \<and> totalDuration (s_metrics s') = 0
      \<and> s_status s' = Active"
  using assms
  by (simp add: processEvent_new commitMerge_parts markClockDrift_fields created_metrics)

theorem new_session_seeded_from_start_event_witness:
  "map_option (heartRateAvg \<circ> s_metrics)
     (sessions (snd (processEvent 1000 1000 (heartRequest ''event-1'' Start 300 0) emptyStore))
        ''session-1'') = Some (Some 300)
   \<and> map_option (heartRateDataPoints \<circ> s_metrics)
     (sessions (snd (processEvent 1000 1000 (heartRequest ''event-1'' Start 300 0) emptyStore))
        ''session-1'') = Some (Some 1)
   \<and> map_option (m_distance \<circ> s_metrics)
     (sessions (snd (processEvent 1000 1000 (heartRequest ''event-1'' Start 300 0) emptyStore))
        ''session-1'') = Some (Some 0)
   \<and> map_option version
     (sessions (snd (processEvent 1000 1000 (heartRequest ''event-1'' Start 300 0) emptyStore))
        ''session-1'') = Some 1"
proof -
  let ?p = "heartRequest ''event-1'' Start 300 0"
  have a: "events emptyStore (eventId ?p) = None" and b: "sessions emptyStore (sessionId ?p) = None"
    by (simp_all add: emptyStore_def)
  have c: "eventType ?p = Start"
    by (simp add: heartRequest_def testRequest_def)
  have d: "sessionId ?p = ''session-1''"
    by (simp add: heartRequest_def testRequest_def)
  have e: "metric heartRate ?p = Some 300" "metric duration ?p = Some 0"
    "metric distance ?p = None"
    by (simp_all add: metric_def heartRequest_metrics)
  from new_session_seeded_from_start_event [OF a b c, of 1000 1000]
  obtain s' where
    "sessions (snd (processEvent 1000 1000 ?p emptyStore)) (sessionId ?p) = Some s'"
    "heartRateAvg (s_metrics s') = metric heartRate ?p"
    "heartRateDataPoints (s_metrics s')
       = Some (case metric heartRate ?p of
                 None \<Rightarrow> 0
               | Some h \<Rightarrow> if h = 0 then 0
                           else (case metric duration ?p of None \<Rightarrow> 1 | Some d \<Rightarrow> max d 1))"
    "m_distance (s_metrics s') = Some (case metric distance ?p of None \<Rightarrow> 0 | Some x \<Rightarrow> x)"
    "version s' = 1"
    by blast
  then show ?thesis
    by (simp add: d e)
qed

theorem zero_heart_rate_has_no_weight_counterexample:
  "events emptyStore ''event-1'' = None
   \<and> sessions emptyStore ''session-1'' = None
   \<and> eventType (heartRequest ''event-1'' Start 0 30) = Start
   \<and> metric heartRate (heartRequest ''event-1'' Start 0 30) = Some 0
   \<and> metric duration (heartRequest ''event-1'' Start 0 30) = Some 30
   \<and> max (30::real) 1 = 30
   \<and> map_option (heartRateDataPoints \<circ> s_metrics)
       (sessions (snd (processEvent 1000 1000 (heartRequest ''event-1'' Start 0 30) emptyStore))
          ''session-1'') = Some (Some 0)"
proof -
  let ?p = "heartRequest ''event-1'' Start 0 30"
  have a: "events emptyStore (eventId ?p) = None" and b: "sessions emptyStore (sessionId ?p) = None"
    by (simp_all add: emptyStore_def)
  have c: "eventType ?p = Start" and d: "sessionId ?p = ''session-1''"
    by (simp_all add: heartRequest_def testRequest_def)
  have e: "metric heartRate ?p = Some 0" "metric duration ?p = Some 30"
    by (simp_all add: metric_def heartRequest_metrics)
  have "sessions (snd (processEvent 1000 1000 ?p emptyStore)) ''session-1''
          = Some (markClockDrift ?p (createNewSession 1000 ?p))"
    using commitMerge_parts(2) [of 1000 ?p "createNewSession 1000 ?p" False emptyStore]
    by (simp add: processEvent_new [OF a b c] d)
  then show ?thesis
    by (simp add: markClockDrift_fields created_metrics e c emptyStore_def)
qed


subsection \<open>What the guard leaves alone\<close>

lemma updateRecord_frames:
  "updateRecord k f st = Inr st' \<Longrightarrow> sessions st' = sessions st \<and> events st' = events st"
  by (auto simp add: updateRecord_def split: option.splits)

lemma markFailed_frames:
  "sessions (snd (markFailed now k e st)) = sessions st"
  "events (snd (markFailed now k e st)) = events st"
  by (auto simp add: markFailed_def updateRecord_def split: option.splits sum.splits)

lemma finalizeRecord_frames:
  "sessions (snd (finalizeRecord now k res st)) = sessions st"
  "events (snd (finalizeRecord now k res st)) = events st"
  by (auto simp add: finalizeRecord_def markFailed_def updateRecord_def
      split: option.splits sum.splits prod.splits)

lemma finalizeRecord_resolved:
  "idempotency st k = Some d \<Longrightarrow>
   fst (finalizeRecord now k (Inr r) st) = Inr \<lparr>isNew = True, result_response = r\<rparr>"
  by (simp add: finalizeRecord_def updateRecord_def)

lemma finalizeRecord_thrown:
  "\<exists>e'. fst (finalizeRecord now k (Inl e) st) = Inl e'"
  by (simp add: finalizeRecord_def split: prod.splits)

lemma finalizeRecord_other_keys:
  "k' \<noteq> k \<Longrightarrow> idempotency (snd (finalizeRecord now k res st)) k' = idempotency st k'"
  by (auto simp add: finalizeRecord_def markFailed_def updateRecord_def
      split: option.splits sum.splits prod.splits)

lemma guard_fresh_key:
  assumes "idempotency st k = None"
  shows "processWithIdempotency truthy clk k req processor st
     = (case processor (st\<lparr>idempotency := (idempotency st)(k \<mapsto> newRecord (claim_at clk) k req)\<rparr>) of
          (res, st2) \<Rightarrow> finalizeRecord (final_at clk) k res st2)"
  using assms by (simp add: processWithIdempotency_def claimTransaction_def writeClaim_def)

lemma processEvent_ignores_idempotency:
  "processEvent now commit p (st\<lparr>idempotency := i\<rparr>)
     = (fst (processEvent now commit p st), (snd (processEvent now commit p st))\<lparr>idempotency := i\<rparr>)"
  by (simp add: processEvent_def commitMerge_def logMetrics_def Let_def
      split: option.splits prod.splits)

lemma processEvent_frames_duplicate:
  assumes "events st (eventId p) = Some e"
  shows "sessions (snd (processEvent now commit p st)) = sessions st"
    and "events (snd (processEvent now commit p st)) = events st"
  using assms by (simp_all add: processEvent_duplicate logMetrics_def)

text \<open>The endpoint on a valid request whose idempotency key is new.\<close>

lemma ingest_new_key:
  assumes "validatePayload (validated_at rc) body = (None, p)"
    and "idempotency st (idempotencyKey p) = None"
  shows "sessions (snd (ingestExerciseEvent rc ''POST'' body st))
           = sessions (snd (processEvent (merged_at rc) (committed_at rc) p st))"
    and "events (snd (ingestExerciseEvent rc ''POST'' body st))
           = events (snd (processEvent (merged_at rc) (committed_at rc) p st))"
    and "fst (processEvent (merged_at rc) (committed_at rc) p st) = Inr r \<Longrightarrow>
         fst (ingestExerciseEvent rc ''POST'' body st) = \<lparr>http_status = 200, http_body = JsonBody r\<rparr>"
    and "http_status (fst (ingestExerciseEvent rc ''POST'' body st)) = 200 \<Longrightarrow>
         \<exists>r. fst (processEvent (merged_at rc) (committed_at rc) p st) = Inr r"
    and "k' \<noteq> idempotencyKey p \<Longrightarrow>
         idempotency (snd (ingestExerciseEvent rc ''POST'' body st)) k' = idempotency st k'"
proof -
  let ?k = "idempotencyKey p"
  let ?i = "(idempotency st)(?k \<mapsto> newRecord (claim_at (guard_times rc)) ?k p)"
  let ?pe = "processEvent (merged_at rc) (committed_at rc) p st"
  let ?st2 = "(snd ?pe)\<lparr>idempotency := ?i\<rparr>"
  let ?fin = "finalizeRecord (final_at (guard_times rc)) ?k (fst ?pe) ?st2"
  have g: "processWithIdempotency objectTruthy (guard_times rc) ?k p
             (processEvent (merged_at rc) (committed_at rc) p) st = ?fin"
    by (simp add: guard_fresh_key [OF assms(2)] processEvent_ignores_idempotency)
  have rec: "idempotency ?st2 ?k = Some (newRecord (claim_at (guard_times rc)) ?k p)"
    by simp
  have ing: "ingestExerciseEvent rc ''POST'' body st
      = (case ?fin of
           (Inr result, st') \<Rightarrow>
             (\<lparr>http_status = 200, http_body = JsonBody (result_response result)\<rparr>,
              logMetrics ''event_ingested'' st')
         | (Inl e, st') \<Rightarrow>
             if e = Error ''Request is already being processed''
             then (\<lparr>http_status = 409,
                     http_body = ErrorBody ''Request is already being processed''\<rparr>, st')
             else (\<lparr>http_status = 500, http_body = ErrorBody ''Processing failed''\<rparr>, st'))"
    by (simp add: ingestExerciseEvent_def assms(1) g)
  have snd_ing: "snd (ingestExerciseEvent rc ''POST'' body st) = snd ?fin
      \<or> snd (ingestExerciseEvent rc ''POST'' body st) = logMetrics ''event_ingested'' (snd ?fin)"
    by (simp add: ing split: prod.splits sum.splits)
  show "sessions (snd (ingestExerciseEvent rc ''POST'' body st)) = sessions (snd ?pe)"
    using snd_ing finalizeRecord_frames(1) [of "final_at (guard_times rc)" ?k "fst ?pe" ?st2]
    by (auto simp add: logMetrics_def)
  show "events (snd (ingestExerciseEvent rc ''POST'' body st)) = events (snd ?pe)"
    using snd_ing finalizeRecord_frames(2) [of "final_at (guard_times rc)" ?k "fst ?pe" ?st2]
    by (auto simp add: logMetrics_def)
  show "fst (ingestExerciseEvent rc ''POST'' body st) = \<lparr>http_status = 200, http_body = JsonBody r\<rparr>"
    if "fst ?pe = Inr r"
    using finalizeRecord_resolved [OF rec, of "final_at (guard_times rc)" r] that
    by (cases ?fin) (auto simp add: ing)
  show "\<exists>r. fst ?pe = Inr r" if "http_status (fst (ingestExerciseEvent rc ''POST'' body st)) = 200"
  proof (cases "fst ?pe")
    case (Inl e)
    with finalizeRecord_thrown [of "final_at (guard_times rc)" ?k e ?st2] that show ?thesis
      by (cases ?fin) (auto simp add: ing split: if_splits)
  next
    case (Inr r)
    then show ?thesis by blast
  qed
  show "idempotency (snd (ingestExerciseEvent rc ''POST'' body st)) k' = idempotency st k'"
    if "k' \<noteq> ?k"
    using snd_ing finalizeRecord_other_keys [OF that, of "final_at (guard_times rc)" "fst ?pe" ?st2]
      that
    by (auto simp add: logMetrics_def)
qed


lemma ingest_duplicate_event:
  assumes "validatePayload (validated_at rc) body = (None, p)"
    and "idempotency st (idempotencyKey p) = None"
    and "events st (eventId p) = Some e"
  shows "fst (ingestExerciseEvent rc ''POST'' body st)
           = \<lparr>http_status = 200, http_body = JsonBody (alreadyProcessed p)\<rparr>"
    and "sessions (snd (ingestExerciseEvent rc ''POST'' body st)) = sessions st"
    and "events (snd (ingestExerciseEvent rc ''POST'' body st)) = events st"
proof -
  have "fst (processEvent (merged_at rc) (committed_at rc) p st) = Inr (alreadyProcessed p)"
    by (simp add: processEvent_duplicate [OF assms(3)])
  then show "fst (ingestExerciseEvent rc ''POST'' body st)
           = \<lparr>http_status = 200, http_body = JsonBody (alreadyProcessed p)\<rparr>"
    by (rule ingest_new_key(3) [OF assms(1,2)])
  show "sessions (snd (ingestExerciseEvent rc ''POST'' body st)) = sessions st"
    by (simp add: ingest_new_key(1) [OF assms(1,2)] processEvent_frames_duplicate(1) [OF assms(3)])
  show "events (snd (ingestExerciseEvent rc ''POST'' body st)) = events st"
    by (simp add: ingest_new_key(2) [OF assms(1,2)] processEvent_frames_duplicate(2) [OF assms(3)])
qed

lemma ingest_ok_records_event:
  assumes "validatePayload (validated_at rc) body = (None, p)"
    and "idempotency st (idempotencyKey p) = None"
    and "http_status (fst (ingestExerciseEvent rc ''POST'' body st)) = 200"
  shows "events (snd (ingestExerciseEvent rc ''POST'' body st)) (eventId p) \<noteq> None"
proof -
  from ingest_new_key(4) [OF assms]
  obtain r where "fst (processEvent (merged_at rc) (committed_at rc) p st) = Inr r" ..
  then show ?thesis
    by (simp add: ingest_new_key(2) [OF assms(1,2)] processEvent_Inr_event)
qed

text \<open>
  C3. When an Event document already exists for the event's id, the merge returns the
  \<open>already_processed\<close> result, and the sessions and the events of the store are what they
  were: no session is touched and no Event document is written. Hence, when a request
  under a new idempotency key has been answered with 200, a second request with the same
  event id under another new idempotency key is answered with \<open>already_processed\<close> and
  leaves sessions and events as the first request left them, with the one Event document
  of that id.
\<close>

theorem duplicate_event_leaves_session_untouched:
  "(events st (eventId p) = Some e
      \<longrightarrow> fst (processEvent now commit p st) = Inr (alreadyProcessed p)
        \<and> r_status (alreadyProcessed p) = ''already_processed''
        \<and> sessions (snd (processEvent now commit p st)) = sessions st
        \<and> events (snd (processEvent now commit p st)) = events st)
   \<and> (validatePayload (validated_at rc1) body1 = (None, p1)
      \<and> validatePayload (validated_at rc2) body2 = (None, p2)
      \<and> eventId p2 = eventId p1 \<and> idempotencyKey p2 \<noteq> idempotencyKey p1
      \<and> idempotency st0 (idempotencyKey p1) = None \<and> idempotency st0 (idempotencyKey p2) = None
      \<and> http_status (fst (ingestExerciseEvent rc1 ''POST'' body1 st0)) = 200
      \<longrightarrow> events (snd (ingestExerciseEvent rc1 ''POST'' body1 st0)) (eventId p1) \<noteq> None
        \<and> fst (ingestExerciseEvent rc2 ''POST'' body2
                 (snd (ingestExerciseEvent rc1 ''POST'' body1 st0)))
            = \<lparr>http_status = 200, http_body = JsonBody (alreadyProcessed p2)\<rparr>
        \<and> events (snd (ingestExerciseEvent rc2 ''POST'' body2
                 (snd (ingestExerciseEvent rc1 ''POST'' body1 st0))))
            = events (snd (ingestExerciseEvent rc1 ''POST'' body1 st0))
        \<and> sessions (snd (ingestExerciseEvent rc2 ''POST'' body2
                 (snd (ingestExerciseEvent rc1 ''POST'' body1 st0))))
            = sessions (snd (ingestExerciseEvent rc1 ''POST'' body1 st0)))"
proof (intro conjI impI)
  assume "events st (eventId p) = Some e"
  then show "fst (processEvent now commit p st) = Inr (alreadyProcessed p)"
    and "sessions (snd (processEvent now commit p st)) = sessions st"
    and "events (snd (processEvent now commit p st)) = events st"
    by (simp_all add: processEvent_duplicate logMetrics_def)
next
  show "r_status (alreadyProcessed p) = ''already_processed''"
    by (simp add: alreadyProcessed_def)
next
  assume h: "validatePayload (validated_at rc1) body1 = (None, p1)
      \<and> validatePayload (validated_at rc2) body2 = (None, p2)
      \<and> eventId p2 = eventId p1 \<and> idempotencyKey p2 \<noteq> idempotencyKey p1
      \<and> idempotency st0 (idempotencyKey p1) = None \<and> idempotency st0 (idempotencyKey p2) = None
      \<and> http_status (fst (ingestExerciseEvent rc1 ''POST'' body1 st0)) = 200"
  let ?st1 = "snd (ingestExerciseEvent rc1 ''POST'' body1 st0)"
  from h have v1: "validatePayload (validated_at rc1) body1 = (None, p1)"
    and v2: "validatePayload (validated_at rc2) body2 = (None, p2)"
    and same: "eventId p2 = eventId p1" and other: "idempotencyKey p2 \<noteq> idempotencyKey p1"
    and new1: "idempotency st0 (idempotencyKey p1) = None"
    and new2: "idempotency st0 (idempotencyKey p2) = None"
    and ok: "http_status (fst (ingestExerciseEvent rc1 ''POST'' body1 st0)) = 200"
    by simp_all
  from ingest_ok_records_event [OF v1 new1 ok]
  show written: "events ?st1 (eventId p1) \<noteq> None" .
  then obtain e1 where e1: "events ?st1 (eventId p2) = Some e1"
    using same by auto
  have still_new: "idempotency ?st1 (idempotencyKey p2) = None"
    using ingest_new_key(5) [OF v1 new1 other] new2 by simp
  show "fst (ingestExerciseEvent rc2 ''POST'' body2 ?st1)
          = \<lparr>http_status = 200, http_body = JsonBody (alreadyProcessed p2)\<rparr>"
    by (rule ingest_duplicate_event(1) [OF v2 still_new e1])
  show "events (snd (ingestExerciseEvent rc2 ''POST'' body2 ?st1)) = events ?st1"
    by (rule ingest_duplicate_event(3) [OF v2 still_new e1])
  show "sessions (snd (ingestExerciseEvent rc2 ''POST'' body2 ?st1)) = sessions ?st1"
    by (rule ingest_duplicate_event(2) [OF v2 still_new e1])
qed

lemma testRequest_accepted:
  "1000 \<le> t \<Longrightarrow> t \<le> 3000 \<Longrightarrow> 0 \<le> n \<Longrightarrow> k \<noteq> [] \<Longrightarrow> length k \<le> 128 \<Longrightarrow> e \<noteq> [] \<Longrightarrow>
   validatePayload (validated_at (requestClock t)) (testRequest k e ty 1000 n)
     = (None, testRequest k e ty 1000 n)"
  by (simp add: validatePayload_def testRequest_def testMetrics_def validateMetrics_def
      oneWeek_def oneHour_def requestClock_def)

theorem duplicate_event_leaves_session_untouched_witness:
  "fst (ingestExerciseEvent (requestClock 3000) ''POST'' (testRequest ''key-2'' ''event-1'' Start 1000 1)
          (snd (ingestExerciseEvent (requestClock 2000) ''POST''
                  (testRequest ''key-1'' ''event-1'' Start 1000 1) emptyStore)))
     = \<lparr>http_status = 200,
        http_body = JsonBody (alreadyProcessed (testRequest ''key-2'' ''event-1'' Start 1000 1))\<rparr>
   \<and> events (snd (ingestExerciseEvent (requestClock 3000) ''POST''
          (testRequest ''key-2'' ''event-1'' Start 1000 1)
          (snd (ingestExerciseEvent (requestClock 2000) ''POST''
                  (testRequest ''key-1'' ''event-1'' Start 1000 1) emptyStore))))
     = events (snd (ingestExerciseEvent (requestClock 2000) ''POST''
                  (testRequest ''key-1'' ''event-1'' Start 1000 1) emptyStore))
   \<and> fst (processEvent 2000 2000 (testRequest ''key-2'' ''event-1'' Update 2000 4) (startedStore 3))
     = Inr (alreadyProcessed (testRequest ''key-2'' ''event-1'' Update 2000 4))
   \<and> sessions (snd (processEvent 2000 2000 (testRequest ''key-2'' ''event-1'' Update 2000 4)
                     (startedStore 3)))
     = sessions (startedStore 3)"
proof -
  let ?p1 = "testRequest ''key-1'' ''event-1'' Start 1000 1"
  let ?p3 = "testRequest ''key-2'' ''event-1'' Update 2000 4"
  have seen: "events (startedStore 3) (eventId ?p3)
      = Some (eventRecord 1000 False (testRequest ''key-1'' ''event-1'' Start 1000 3))"
    by (simp add: startedStore_def processEvent_def emptyStore_def testRequest_def
        commitMerge_def Let_def)
  let ?p2 = "testRequest ''key-2'' ''event-1'' Start 1000 1"
  have v1: "validatePayload (validated_at (requestClock 2000)) ?p1 = (None, ?p1)"
    and v2: "validatePayload (validated_at (requestClock 3000)) ?p2 = (None, ?p2)"
    by (simp_all add: testRequest_accepted)
  have ids: "eventId ?p2 = eventId ?p1" "idempotencyKey ?p2 \<noteq> idempotencyKey ?p1"
    "idempotency emptyStore (idempotencyKey ?p1) = None"
    "idempotency emptyStore (idempotencyKey ?p2) = None"
    by (simp_all add: testRequest_ids emptyStore_def)
  have "events emptyStore (eventId ?p1) = None" "sessions emptyStore (sessionId ?p1) = None"
    "eventType ?p1 = Start"
    by (simp_all add: emptyStore_def testRequest_def)
  then have "\<exists>r. fst (processEvent (merged_at (requestClock 2000))
                       (committed_at (requestClock 2000)) ?p1 emptyStore) = Inr r"
    by (simp add: processEvent_new commitMerge_parts)
  then obtain r where "fst (processEvent (merged_at (requestClock 2000))
                       (committed_at (requestClock 2000)) ?p1 emptyStore) = Inr r" ..
  from ingest_new_key(3) [OF v1 ids(3) this]
  have ok: "http_status (fst (ingestExerciseEvent (requestClock 2000) ''POST'' ?p1 emptyStore)) = 200"
    by simp
  from duplicate_event_leaves_session_untouched [where ?rc1.0 = "requestClock 2000"
      and ?body1.0 = ?p1 and ?p1.0 = ?p1 and ?rc2.0 = "requestClock 3000" and ?body2.0 = ?p2
      and ?p2.0 = ?p2 and ?st0.0 = emptyStore and p = ?p3 and st = "startedStore 3"
      and now = 2000 and commit = 2000] v1 v2 ids ok seen
  show ?thesis
    by blast
qed


subsection \<open>Interleaved calls\<close>

lemma claim_new_key:
  "idempotency st k = None \<Longrightarrow>
   claimTransaction truthy clk k req st = writeClaim (claim_at clk) k req st"
  by (simp add: claimTransaction_def)

lemma claim_completed:
  assumes "idempotency st k = Some d" and "check_at clk < expiresAt d"
    and "status d = Completed" and "replayable truthy (Some d)"
  shows "\<exists>r. response d = Some r \<and> claimTransaction truthy clk k req st = (Inr (FromCache r), st)"
  using assms by (auto simp add: claimTransaction_def replayable_def split: option.splits)

lemma claim_processing:
  assumes "idempotency st k = Some d" and "check_at clk < expiresAt d"
    and "status d = Processing" and "processingAge (check_at clk) d \<le> PROCESSING_TIMEOUT_MS"
  shows "claimTransaction truthy clk k req st = (Inl (Error ''CONCURRENT_REQUEST''), st)"
  using assms by (simp add: claimTransaction_def)

lemma claim_failed:
  assumes "idempotency st k = Some d" and "check_at clk < expiresAt d" and "status d = Failed"
  shows "\<exists>e. claimTransaction truthy clk k req st = (Inl e, st)"
  using assms by (simp add: claimTransaction_def)

text \<open>Within the window, a claim either writes the first record of the key or leaves the store.\<close>

lemma claim_within_window:
  assumes "case idempotency st k of
             None \<Rightarrow> True
           | Some d \<Rightarrow> check_at clk < expiresAt d
               \<and> (status d \<noteq> Processing \<or> processingAge (check_at clk) d \<le> PROCESSING_TIMEOUT_MS)"
    and "replayable truthy (idempotency st k)"
  shows "(idempotency st k = None
            \<and> claimTransaction truthy clk k req st = writeClaim (claim_at clk) k req st)
       \<or> (\<exists>d r. idempotency st k = Some d \<and> status d = Completed \<and> response d = Some r
            \<and> claimTransaction truthy clk k req st = (Inr (FromCache r), st))
       \<or> (\<exists>e. idempotency st k \<noteq> None \<and> claimTransaction truthy clk k req st = (Inl e, st))"
proof (cases "idempotency st k")
  case None
  then show ?thesis by (simp add: claim_new_key)
next
  case (Some d)
  with assms have live: "check_at clk < expiresAt d"
    and calm: "status d \<noteq> Processing \<or> processingAge (check_at clk) d \<le> PROCESSING_TIMEOUT_MS"
    and rep: "replayable truthy (Some d)"
    by simp_all
  show ?thesis
  proof (cases "status d")
    case Processing
    with calm claim_processing [OF Some live Processing] Some show ?thesis by simp
  next
    case Completed
    with claim_completed [OF Some live Completed rep] Some show ?thesis by auto
  next
    case Failed
    with claim_failed [OF Some live Failed] Some show ?thesis by auto
  qed
qed


lemma owner_simps:
  "owner Claimed" "owner (Ran res)" "\<not> owner NotStarted" "\<not> owner (Returned out)"
  by (simp_all add: owner_def)

lemma step_claim:
  "calls w c = NotStarted \<Longrightarrow>
   step truthy k req processor (c, clk) w
     = (case claimTransaction truthy clk k req (store w) of
          (Inl e, st) \<Rightarrow> w\<lparr>store := st, calls := (calls w)(c := Returned (Inl (failClosed e)))\<rparr>
        | (Inr (FromCache r), st) \<Rightarrow>
            w\<lparr>store := st,
              calls := (calls w)(c := Returned (Inr \<lparr>isNew = False, result_response = r\<rparr>))\<rparr>
        | (Inr ShouldProcess, st) \<Rightarrow> w\<lparr>store := st, calls := (calls w)(c := Claimed)\<rparr>)"
  by (simp add: step_def)

lemma step_run:
  "calls w c = Claimed \<Longrightarrow>
   step truthy k req processor (c, clk) w
     = w\<lparr>store := snd (processor (store w)), calls := (calls w)(c := Ran (fst (processor (store w)))),
         runs := runs w + 1\<rparr>"
  by (simp add: step_def split: prod.splits)

lemma step_finalize:
  "calls w c = Ran res \<Longrightarrow>
   step truthy k req processor (c, clk) w
     = w\<lparr>store := snd (finalizeRecord (final_at clk) k res (store w)),
         calls := (calls w)(c := Returned (fst (finalizeRecord (final_at clk) k res (store w))))\<rparr>"
  by (simp add: step_def split: prod.splits)

lemma step_returned:
  "calls w c = Returned out \<Longrightarrow> step truthy k req processor (c, clk) w = w"
  by (simp add: step_def)

lemma finalize_resolved_record:
  assumes "idempotency st k = Some d"
  shows "finalizeRecord now k (Inr r) st
     = (Inr \<lparr>isNew = True, result_response = r\<rparr>,
        st\<lparr>idempotency := (idempotency st)
              (k \<mapsto> d\<lparr>response := Some r, status := Completed, completedAt := Some now\<rparr>)\<rparr>)"
  using assms by (simp add: finalizeRecord_def updateRecord_def)

lemma finalize_thrown_record:
  assumes "idempotency st k = Some d"
  shows "finalizeRecord now k (Inl e) st
     = (Inl (failClosed e),
        st\<lparr>idempotency := (idempotency st)
              (k \<mapsto> d\<lparr>status := Failed, error := Some (errorMessage e), failedAt := Some now\<rparr>)\<rparr>)"
  using assms by (simp add: finalizeRecord_def markFailed_def updateRecord_def)

lemma guardInvariantI:
  assumes "runs w \<le> 1"
    and "0 < runs w \<Longrightarrow> idempotency (store w) k \<noteq> None"
    and "\<And>c c'. owner (calls w c) \<Longrightarrow> owner (calls w c') \<Longrightarrow> c = c'"
    and "\<And>c. calls w c = Claimed \<Longrightarrow> runs w = 0"
    and "\<And>c. owner (calls w c) \<Longrightarrow>
           \<exists>d. idempotency (store w) k = Some d \<and> status d = Processing"
    and "\<And>c g. calls w c = Returned (Inr g) \<Longrightarrow>
           \<exists>d. idempotency (store w) k = Some d \<and> status d = Completed
                \<and> response d = Some (result_response g)"
    and "\<And>c r. calls w c = Ran (Inr r) \<Longrightarrow> truthy r"
    and "replayable truthy (idempotency (store w) k)"
  shows "guardInvariant truthy k w"
  unfolding guardInvariant_def using assms by blast

lemma guardInvariantD:
  assumes "guardInvariant truthy k w"
  shows "runs w \<le> 1"
    and "0 < runs w \<Longrightarrow> idempotency (store w) k \<noteq> None"
    and "owner (calls w c) \<Longrightarrow> owner (calls w c') \<Longrightarrow> c = c'"
    and "calls w c = Claimed \<Longrightarrow> runs w = 0"
    and "owner (calls w c) \<Longrightarrow> \<exists>d. idempotency (store w) k = Some d \<and> status d = Processing"
    and "calls w c = Returned (Inr g) \<Longrightarrow>
           \<exists>d. idempotency (store w) k = Some d \<and> status d = Completed
                \<and> response d = Some (result_response g)"
    and "calls w c = Ran (Inr r) \<Longrightarrow> truthy r"
    and "replayable truthy (idempotency (store w) k)"
  using assms unfolding guardInvariant_def by blast+

lemma invariant_after_first_claim:
  assumes inv: "guardInvariant truthy k w" and idle: "calls w c = NotStarted"
    and new: "idempotency (store w) k = None"
  shows "guardInvariant truthy k
           (w\<lparr>store := (store w)\<lparr>idempotency :=
                  (idempotency (store w))(k \<mapsto> newRecord now k req)\<rparr>,
              calls := (calls w)(c := Claimed)\<rparr>)"
proof (rule guardInvariantI)
  let ?w = "w\<lparr>store := (store w)\<lparr>idempotency :=
                  (idempotency (store w))(k \<mapsto> newRecord now k req)\<rparr>,
              calls := (calls w)(c := Claimed)\<rparr>"
  from guardInvariantD(2) [OF inv] new have zero: "runs w = 0"
    by auto
  from guardInvariantD(5) [OF inv] new have free: "\<And>x. \<not> owner (calls w x)"
    by auto
  from guardInvariantD(6) [OF inv] new have none: "\<And>x g. calls w x \<noteq> Returned (Inr g)"
    by auto
  show "runs ?w \<le> 1"
    using zero by simp
  show "idempotency (store ?w) k \<noteq> None"
    by simp
  show "c1 = c2" if "owner (calls ?w c1)" and "owner (calls ?w c2)" for c1 c2
    using that free by (auto split: if_splits)
  show "runs ?w = 0" if "calls ?w x = Claimed" for x
    using zero by simp
  show "\<exists>d. idempotency (store ?w) k = Some d \<and> status d = Processing"
    if "owner (calls ?w x)" for x
    by (simp add: newRecord_def)
  show "\<exists>d. idempotency (store ?w) k = Some d \<and> status d = Completed
          \<and> response d = Some (result_response g)"
    if "calls ?w x = Returned (Inr g)" for x g
    using that none by (auto split: if_splits)
  show "truthy r" if "calls ?w x = Ran (Inr r)" for x r
    using that guardInvariantD(7) [OF inv] by (auto split: if_splits)
  show "replayable truthy (idempotency (store ?w) k)"
    by (simp add: replayable_def newRecord_def)
qed

lemma invariant_after_return:
  assumes inv: "guardInvariant truthy k w" and idle: "calls w c = NotStarted"
    and out: "\<And>g. out = Inr g \<Longrightarrow>
                \<exists>d. idempotency (store w) k = Some d \<and> status d = Completed
                     \<and> response d = Some (result_response g)"
  shows "guardInvariant truthy k (w\<lparr>store := store w, calls := (calls w)(c := Returned out)\<rparr>)"
proof (rule guardInvariantI)
  let ?w = "w\<lparr>store := store w, calls := (calls w)(c := Returned out)\<rparr>"
  show "runs ?w \<le> 1"
    using guardInvariantD(1) [OF inv] by simp
  show "idempotency (store ?w) k \<noteq> None" if "0 < runs ?w"
    using that guardInvariantD(2) [OF inv] by simp
  show "c1 = c2" if "owner (calls ?w c1)" and "owner (calls ?w c2)" for c1 c2
    using that guardInvariantD(3) [OF inv, of c1 c2] by (auto simp add: owner_simps split: if_splits)
  show "runs ?w = 0" if "calls ?w x = Claimed" for x
    using that guardInvariantD(4) [OF inv, of x] by (auto split: if_splits)
  show "\<exists>d. idempotency (store ?w) k = Some d \<and> status d = Processing"
    if "owner (calls ?w x)" for x
    using that guardInvariantD(5) [OF inv, of x] by (auto simp add: owner_simps split: if_splits)
  show "\<exists>d. idempotency (store ?w) k = Some d \<and> status d = Completed
          \<and> response d = Some (result_response g)"
    if "calls ?w x = Returned (Inr g)" for x g
    using that guardInvariantD(6) [OF inv, of x g] out [of g] by (auto split: if_splits)
  show "truthy r" if "calls ?w x = Ran (Inr r)" for x r
    using that guardInvariantD(7) [OF inv, of x r] by (auto split: if_splits)
  show "replayable truthy (idempotency (store ?w) k)"
    using guardInvariantD(8) [OF inv] by simp
qed

lemma invariant_after_claim:
  assumes inv: "guardInvariant truthy k w" and idle: "calls w c = NotStarted"
    and window: "withinWindow k (c, clk) w"
  shows "guardInvariant truthy k (step truthy k req processor (c, clk) w)"
proof -
  from window idle have w1: "case idempotency (store w) k of
             None \<Rightarrow> True
           | Some d \<Rightarrow> check_at clk < expiresAt d
               \<and> (status d \<noteq> Processing \<or> processingAge (check_at clk) d \<le> PROCESSING_TIMEOUT_MS)"
    by (simp add: withinWindow_def)
  note rep = guardInvariantD(8) [OF inv]
  note cases = claim_within_window [OF w1 rep, where req = req]
  show ?thesis
  proof (cases "idempotency (store w) k")
    case None
    with cases have "claimTransaction truthy clk k req (store w)
        = writeClaim (claim_at clk) k req (store w)"
      by auto
    then have "step truthy k req processor (c, clk) w
        = w\<lparr>store := (store w)\<lparr>idempotency :=
                 (idempotency (store w))(k \<mapsto> newRecord (claim_at clk) k req)\<rparr>,
            calls := (calls w)(c := Claimed)\<rparr>"
      by (simp add: step_claim [OF idle] writeClaim_def)
    with invariant_after_first_claim [OF inv idle None] show ?thesis
      by simp
  next
    case (Some d)
    with cases consider
      (cached) r where "status d = Completed" "response d = Some r"
        "claimTransaction truthy clk k req (store w) = (Inr (FromCache r), store w)"
      | (refused) e where "claimTransaction truthy clk k req (store w) = (Inl e, store w)"
      by auto
    then show ?thesis
    proof cases
      case cached
      have st: "step truthy k req processor (c, clk) w
          = w\<lparr>store := store w,
              calls := (calls w)(c := Returned (Inr \<lparr>isNew = False, result_response = r\<rparr>))\<rparr>"
        by (simp add: step_claim [OF idle] cached(3))
      show ?thesis
        unfolding st using Some cached(1,2) by (intro invariant_after_return [OF inv idle]) auto
    next
      case refused
      have st: "step truthy k req processor (c, clk) w
          = w\<lparr>store := store w, calls := (calls w)(c := Returned (Inl (failClosed e)))\<rparr>"
        by (simp add: step_claim [OF idle] refused)
      show ?thesis
        unfolding st by (intro invariant_after_return [OF inv idle]) auto
    qed
  qed
qed

lemma invariant_after_run:
  assumes inv: "guardInvariant truthy k w" and claimed: "calls w c = Claimed"
    and keeps: "\<forall>st. idempotency (snd (processor st)) k = idempotency st k"
    and truthy: "\<forall>st r. fst (processor st) = Inr r \<longrightarrow> truthy r"
  shows "guardInvariant truthy k (step truthy k req processor (c, clk) w)"
proof -
  let ?w = "w\<lparr>store := snd (processor (store w)),
              calls := (calls w)(c := Ran (fst (processor (store w)))), runs := runs w + 1\<rparr>"
  have own: "owner (calls w c)"
    by (simp add: claimed owner_simps)
  from guardInvariantD(4) [OF inv claimed] have zero: "runs w = 0" .
  have only: "x = c" if "owner (calls w x)" for x
    using guardInvariantD(3) [OF inv that own] .
  from guardInvariantD(5) [OF inv own]
  obtain d where d: "idempotency (store w) k = Some d" "status d = Processing"
    by blast
  have same: "idempotency (store ?w) k = idempotency (store w) k"
    using keeps by simp
  have "guardInvariant truthy k ?w"
  proof (rule guardInvariantI)
    show "runs ?w \<le> 1"
      using zero by simp
    show "idempotency (store ?w) k \<noteq> None"
      using same d by simp
    show "c1 = c2" if "owner (calls ?w c1)" and "owner (calls ?w c2)" for c1 c2
      using that only [of c1] only [of c2] by (auto split: if_splits)
    show "runs ?w = 0" if "calls ?w x = Claimed" for x
      using that only [of x] by (auto simp add: owner_simps split: if_splits)
    show "\<exists>d. idempotency (store ?w) k = Some d \<and> status d = Processing"
      if "owner (calls ?w x)" for x
      using same d by simp
    show "\<exists>d. idempotency (store ?w) k = Some d \<and> status d = Completed
            \<and> response d = Some (result_response g)"
      if "calls ?w x = Returned (Inr g)" for x g
      using that guardInvariantD(6) [OF inv, of x g] same by (auto split: if_splits)
    show "truthy r" if "calls ?w x = Ran (Inr r)" for x r
      using that guardInvariantD(7) [OF inv, of x r] truthy by (auto split: if_splits)
    show "replayable truthy (idempotency (store ?w) k)"
      using guardInvariantD(8) [OF inv] same by simp
  qed
  then show ?thesis
    by (simp add: step_run [OF claimed])
qed

lemma invariant_after_finalize:
  assumes inv: "guardInvariant truthy k w" and ran: "calls w c = Ran res"
  shows "guardInvariant truthy k (step truthy k req processor (c, clk) w)"
proof -
  have own: "owner (calls w c)"
    by (simp add: ran owner_simps)
  have only: "x = c" if "owner (calls w x)" for x
    using guardInvariantD(3) [OF inv that own] .
  from guardInvariantD(5) [OF inv own]
  obtain d where d: "idempotency (store w) k = Some d" "status d = Processing"
    by blast
  have none: "calls w x \<noteq> Returned (Inr g)" for x g
    using guardInvariantD(6) [OF inv, of x g] d by auto
  obtain out d' where fin: "finalizeRecord (final_at clk) k res (store w)
        = (out, (store w)\<lparr>idempotency := (idempotency (store w))(k \<mapsto> d')\<rparr>)"
    and d': "status d' \<noteq> Processing"
      "status d' = Completed \<longrightarrow> (\<exists>r. res = Inr r \<and> response d' = Some r)"
    and out: "\<And>g. out = Inr g \<Longrightarrow> status d' = Completed \<and> response d' = Some (result_response g)"
  proof (cases res)
    case (Inl e)
    show ?thesis
      by (rule that [OF finalize_thrown_record [OF d(1), of "final_at clk" e, folded Inl]]) simp_all
  next
    case (Inr r)
    show ?thesis
      by (rule that [OF finalize_resolved_record [OF d(1), of "final_at clk" r, folded Inr]])
        (simp_all add: Inr)
  qed
  let ?w = "w\<lparr>store := (store w)\<lparr>idempotency := (idempotency (store w))(k \<mapsto> d')\<rparr>,
              calls := (calls w)(c := Returned out)\<rparr>"
  have "guardInvariant truthy k ?w"
  proof (rule guardInvariantI)
    show "runs ?w \<le> 1"
      using guardInvariantD(1) [OF inv] by simp
    show "idempotency (store ?w) k \<noteq> None"
      by simp
    show "c1 = c2" if "owner (calls ?w c1)" and "owner (calls ?w c2)" for c1 c2
      using that only [of c1] only [of c2] by (auto simp add: owner_simps split: if_splits)
    show "runs ?w = 0" if "calls ?w x = Claimed" for x
      using that only [of x] by (auto simp add: owner_simps split: if_splits)
    show "\<exists>d. idempotency (store ?w) k = Some d \<and> status d = Processing"
      if "owner (calls ?w x)" for x
      using that only [of x] by (auto simp add: owner_simps split: if_splits)
    show "\<exists>d. idempotency (store ?w) k = Some d \<and> status d = Completed
            \<and> response d = Some (result_response g)"
      if "calls ?w x = Returned (Inr g)" for x g
      using that none [of x g] out [of g] by (auto split: if_splits)
    show "truthy r" if "calls ?w x = Ran (Inr r)" for x r
      using that guardInvariantD(7) [OF inv, of x r] by (auto split: if_splits)
    show "replayable truthy (idempotency (store ?w) k)"
      using d'(2) guardInvariantD(7) [OF inv, of c] ran
      by (auto simp add: replayable_def)
  qed
  then show ?thesis
    by (simp add: step_finalize [OF ran] fin)
qed

lemma step_keeps_invariant:
  assumes "guardInvariant truthy k w" and "withinWindow k a w"
    and "\<forall>st. idempotency (snd (processor st)) k = idempotency st k"
    and "\<forall>st r. fst (processor st) = Inr r \<longrightarrow> truthy r"
  shows "guardInvariant truthy k (step truthy k req processor a w)"
proof -
  obtain c clk where a: "a = (c, clk)"
    by (cases a)
  show ?thesis
  proof (cases "calls w c")
    case NotStarted
    with assms(1,2) show ?thesis
      unfolding a by (simp add: invariant_after_claim)
  next
    case Claimed
    with assms(1,3,4) show ?thesis
      unfolding a by (simp add: invariant_after_run)
  next
    case (Ran res)
    with assms(1) show ?thesis
      unfolding a by (simp add: invariant_after_finalize)
  next
    case (Returned out)
    with assms(1) show ?thesis
      unfolding a by (simp add: step_returned)
  qed
qed

lemma run_keeps_invariant:
  assumes "\<forall>st. idempotency (snd (processor st)) k = idempotency st k"
    and "\<forall>st r. fst (processor st) = Inr r \<longrightarrow> truthy r"
  shows "guardInvariant truthy k w \<Longrightarrow> noTakeover truthy k req processor sched w \<Longrightarrow>
         guardInvariant truthy k (run truthy k req processor sched w)"
proof (induction sched arbitrary: w)
  case Nil
  then show ?case by simp
next
  case (Cons a sched)
  from Cons.prems have "withinWindow k a w"
    and rest: "noTakeover truthy k req processor sched (step truthy k req processor a w)"
    by simp_all
  with Cons.prems(1) assms have "guardInvariant truthy k (step truthy k req processor a w)"
    by (simp add: step_keeps_invariant)
  with rest show ?case
    by (simp add: Cons.IH)
qed

lemma initial_invariant:
  "replayable truthy (idempotency st k) \<Longrightarrow> guardInvariant truthy k (initialWorld st)"
  by (simp add: guardInvariant_def initialWorld_def owner_simps)


text \<open>One call scheduled alone is \<^verbatim>\<open>processWithIdempotency\<close>.\<close>

lemma single_call:
  "store (run truthy k req processor [(c, clk), (c, clk), (c, clk)] (initialWorld st))
     = snd (processWithIdempotency truthy clk k req processor st)
   \<and> calls (run truthy k req processor [(c, clk), (c, clk), (c, clk)] (initialWorld st)) c
     = Returned (fst (processWithIdempotency truthy clk k req processor st))"
proof -
  obtain res st1 where cl: "claimTransaction truthy clk k req st = (res, st1)"
    by (cases "claimTransaction truthy clk k req st")
  show ?thesis
  proof (cases res)
    case (Inl e)
    with cl show ?thesis
      by (simp add: step_def initialWorld_def processWithIdempotency_def)
  next
    case (Inr cr)
    show ?thesis
    proof (cases cr)
      case (FromCache r)
      with cl Inr show ?thesis
        by (simp add: step_def initialWorld_def processWithIdempotency_def)
    next
      case ShouldProcess
      obtain out st2 where pr: "processor st1 = (out, st2)"
        by (cases "processor st1")
      obtain fin st3 where fi: "finalizeRecord (final_at clk) k out st2 = (fin, st3)"
        by (cases "finalizeRecord (final_at clk) k out st2")
      from cl Inr ShouldProcess pr fi show ?thesis
        by (simp add: step_def initialWorld_def processWithIdempotency_def)
    qed
  qed
qed

text \<open>
  C2, amended. For every key and payload, however the steps of any number of calls of
  \<^verbatim>\<open>processWithIdempotency(k, p, f)\<close> interleave, provided that no claim is made after the
  expiry of the record it reads or after the processing timeout of that record, that \<open>f\<close>
  leaves the record of the key alone and resolves to truthy responses only, and that a record
  completed beforehand holds a truthy response: \<open>f\<close> executes at most once, and all calls
  that return a result return the same response.
\<close>

theorem processor_runs_at_most_once:
  assumes "\<forall>st. idempotency (snd (processor st)) k = idempotency st k"
    and "\<forall>st r. fst (processor st) = Inr r \<longrightarrow> truthy r"
    and "replayable truthy (idempotency st k)"
    and "noTakeover truthy k req processor sched (initialWorld st)"
  shows "runs (run truthy k req processor sched (initialWorld st)) \<le> 1
     \<and> (\<forall>c c' g g'.
           calls (run truthy k req processor sched (initialWorld st)) c = Returned (Inr g)
           \<and> calls (run truthy k req processor sched (initialWorld st)) c' = Returned (Inr g')
           \<longrightarrow> result_response g = result_response g')"
proof -
  let ?w = "run truthy k req processor sched (initialWorld st)"
  have inv: "guardInvariant truthy k ?w"
    using run_keeps_invariant [OF assms(1,2) initial_invariant [OF assms(3)] assms(4)] .
  have "result_response g = result_response g'"
    if "calls ?w c = Returned (Inr g)" and "calls ?w c' = Returned (Inr g')" for c c' g g'
    using guardInvariantD(6) [OF inv that(1)] guardInvariantD(6) [OF inv that(2)] by auto
  with guardInvariantD(1) [OF inv] show ?thesis
    by blast
qed

text \<open>The processor of the endpoint meets the two assumptions on the processor.\<close>

lemma processEvent_behind_guard:
  "\<forall>st. idempotency (snd (processEvent now commit p st)) k = idempotency st k"
  "\<forall>st r. fst (processEvent now commit p st) = Inr r \<longrightarrow> objectTruthy r"
  by (simp_all add: processEvent_idempotency objectTruthy_def)

lemma answer_keeps_records: "idempotency (snd (answer n st)) k = idempotency st k"
  by (simp add: answer_def)

lemma answer_resolves: "fst (answer n st) = Inr r \<Longrightarrow> r = n"
  by (simp add: answer_def)


lemmas guard_eval =
  threeCalls_def step_def initialWorld_def guardStore_def clockAt_def answer_def
  numberTruthy_def claimTransaction_def writeClaim_def newRecord_def finalizeRecord_def
  updateRecord_def processingAge_def PROCESSING_TIMEOUT_MS_def EXPIRY_HOURS_def
  withinWindow_def failClosed_def

lemma threeCalls_within_window:
  "noTakeover numberTruthy ''k1'' ''payload'' (answer n) threeCalls (initialWorld (guardStore None))"
  by (simp add: guard_eval)

lemma threeCalls_truthy:
  "calls (run numberTruthy ''k1'' ''payload'' (answer 7) threeCalls (initialWorld (guardStore None))) 0
     = Returned (Inr \<lparr>isNew = True, result_response = 7\<rparr>)"
  "calls (run numberTruthy ''k1'' ''payload'' (answer 7) threeCalls (initialWorld (guardStore None))) 1
     = Returned (Inl (Error ''Request is already being processed''))"
  "calls (run numberTruthy ''k1'' ''payload'' (answer 7) threeCalls (initialWorld (guardStore None))) 2
     = Returned (Inr \<lparr>isNew = False, result_response = 7\<rparr>)"
  by (simp_all add: guard_eval)

theorem processor_runs_at_most_once_witness:
  "noTakeover numberTruthy ''k1'' ''payload'' (answer 7) threeCalls (initialWorld (guardStore None))
   \<and> runs (run numberTruthy ''k1'' ''payload'' (answer 7) threeCalls
              (initialWorld (guardStore None))) \<le> 1
   \<and> calls (run numberTruthy ''k1'' ''payload'' (answer 7) threeCalls
              (initialWorld (guardStore None))) 0
       = Returned (Inr \<lparr>isNew = True, result_response = 7\<rparr>)
   \<and> calls (run numberTruthy ''k1'' ''payload'' (answer 7) threeCalls
              (initialWorld (guardStore None))) 2
       = Returned (Inr \<lparr>isNew = False, result_response = 7\<rparr>)"
proof -
  have a: "\<forall>st. idempotency (snd (answer 7 st)) ''k1'' = idempotency st ''k1''"
    by (simp add: answer_keeps_records)
  have b: "\<forall>st r. fst (answer 7 st) = Inr r \<longrightarrow> numberTruthy r"
    by (simp add: answer_def numberTruthy_def)
  have c: "replayable numberTruthy (idempotency (guardStore None) ''k1'')"
    by (simp add: replayable_def guardStore_def)
  note d = threeCalls_within_window [of 7]
  from processor_runs_at_most_once [OF a b c d] d threeCalls_truthy(1,3) show ?thesis
    by blast
qed

theorem falsy_response_runs_twice_counterexample:
  "noTakeover numberTruthy ''k1'' ''payload'' (answer 0) threeCalls (initialWorld (guardStore None))
   \<and> runs (run numberTruthy ''k1'' ''payload'' (answer 0) threeCalls
              (initialWorld (guardStore None))) = 2"
  by (simp add: guard_eval)


subsection \<open>Heart rate on reachable stores\<close>

lemma heartConsistent_cong:
  "heartRateAvg sm' = heartRateAvg sm \<Longrightarrow> heartRateDataPoints sm' = heartRateDataPoints sm \<Longrightarrow>
   heartConsistent sm' = heartConsistent sm"
  by (simp add: heartConsistent_def)

lemma sessionsConsistent_cong:
  "sessions st' = sessions st \<Longrightarrow> sessionsConsistent st' = sessionsConsistent st"
  by (simp add: sessionsConsistent_def)

lemma sessionsConsistentD:
  "sessionsConsistent st \<Longrightarrow> sessions st sid = Some s \<Longrightarrow> heartConsistent (s_metrics s)"
  unfolding sessionsConsistent_def by (drule spec [of _ sid]) simp

lemma sessionsConsistent_update:
  assumes "sessionsConsistent st" and "heartConsistent (s_metrics s)"
    and "sessions st' = (sessions st)(sid \<mapsto> s)"
  shows "sessionsConsistent st'"
  using assms by (simp add: sessionsConsistent_def)

lemma validated_heart_rate:
  assumes "validatePayload now body = (None, p)"
  shows "case metric heartRate p of None \<Rightarrow> True | Some h \<Rightarrow> 0 < h"
proof -
  have same: "metrics p = metrics body"
    using assms by (auto simp add: validatePayload_def Let_def split: if_splits option.splits)
  have ok: "case metrics body of None \<Rightarrow> True | Some m \<Rightarrow> validateMetrics m = None"
    using assms by (auto simp add: validatePayload_def Let_def split: if_splits option.splits)
  show ?thesis
  proof (cases "metrics body")
    case None
    with same show ?thesis by (simp add: metric_def)
  next
    case (Some m)
    with ok have "validateMetrics m = None" by simp
    then have "case heartRate m of None \<Rightarrow> True | Some h \<Rightarrow> 30 \<le> h"
      by (auto simp add: validateMetrics_def split: if_splits option.splits)
    with Some same show ?thesis
      by (auto simp add: metric_def split: option.splits)
  qed
qed

lemma created_consistent:
  assumes "case metric heartRate p of None \<Rightarrow> True | Some h \<Rightarrow> 0 < h"
  shows "heartConsistent (s_metrics (createNewSession c p))"
  using assms
  by (auto simp add: heartConsistent_def createNewSession_def js_truthy_def split: option.splits)

lemma weighted_mean_positive:
  fixes a w hr dur :: real
  assumes "0 < a" and "0 \<le> w" and "0 < hr" and "1 \<le> dur"
  shows "0 < (a * w + hr * dur) / (w + dur)"
proof -
  have "0 \<le> a * w"
    using assms(1,2) by simp
  moreover have "0 < hr * dur"
    using assms(3,4) by simp
  ultimately have "0 < a * w + hr * dur"
    by linarith
  moreover have "0 < w + dur"
    using assms(2,4) by linarith
  ultimately show ?thesis
    by simp
qed

lemma foldHeartRate_consistent:
  assumes "heartConsistent sm"
  shows "heartConsistent (foldHeartRate m sm)"
proof (cases "heartRate m")
  case None
  with assms show ?thesis by (simp add: foldHeartRate_def)
next
  case (Some hr)
  show ?thesis
  proof (cases "0 < hr \<and> hr \<le> 250")
    case False
    with Some assms show ?thesis by (auto simp add: foldHeartRate_def)
  next
    case True
    let ?dur = "max (js_or (duration m) 1) 1"
    let ?w = "js_or (heartRateDataPoints sm) 0"
    let ?a = "js_or (heartRateAvg sm) hr"
    have dur: "1 \<le> ?dur"
      by simp
    have w: "0 \<le> ?w"
      using assms by (auto simp add: heartConsistent_def js_or_def split: option.splits)
    have a: "0 < ?a"
      using assms True by (auto simp add: heartConsistent_def js_or_def split: option.splits)
    have pos: "0 < ?w + ?dur"
      using w dur by linarith
    have mean: "0 < (?a * ?w + hr * ?dur) / (?w + ?dur)"
      using a w True dur by (intro weighted_mean_positive) simp_all
    have "foldHeartRate m sm
        = sm\<lparr>heartRateAvg := Some ((?a * ?w + hr * ?dur) / (?w + ?dur)),
              heartRateDataPoints := Some (?w + ?dur)\<rparr>"
      using Some True pos by (simp add: foldHeartRate_def Let_def)
    with mean pos show ?thesis
      by (simp add: heartConsistent_def)
  qed
qed

lemma updateSessionMetrics_without_metrics:
  assumes "metrics p = None"
  shows "heartRateAvg (s_metrics (updateSessionMetrics now commit s p)) = heartRateAvg (s_metrics s)"
    and "heartRateDataPoints (s_metrics (updateSessionMetrics now commit s p))
           = heartRateDataPoints (s_metrics s)"
  using assms by (simp_all add: updateSessionMetrics_def Let_def)

lemma updateSessionMetrics_consistent:
  assumes "heartConsistent (s_metrics s)"
  shows "heartConsistent (s_metrics (updateSessionMetrics now commit s p))"
proof (cases "metrics p")
  case None
  from heartConsistent_cong [OF updateSessionMetrics_without_metrics [OF None]] assms
  show ?thesis
    by blast
next
  case (Some m)
  from heartConsistent_cong [OF updateSessionMetrics_heart [OF Some]]
    foldHeartRate_consistent [OF assms]
  show ?thesis
    by blast
qed

lemma mergeExisting_consistent:
  assumes "heartConsistent (s_metrics s)"
  shows "heartConsistent (s_metrics (fst (mergeExisting now commit s p)))"
proof (cases "sequenceOutOfOrder s p \<or> timeOutOfOrder s p")
  case True
  with assms show ?thesis
    by (simp add: fst_mergeExisting_flagged updateTracking_fields flagOutOfOrder_fields)
next
  case False
  with updateSessionMetrics_consistent [OF assms] show ?thesis
    by (simp add: fst_mergeExisting_accepted updateTracking_fields)
qed

lemma commitMerge_consistent:
  assumes "sessionsConsistent st" and "heartConsistent (s_metrics s)"
  shows "sessionsConsistent (snd (commitMerge commit p s ooo st))"
proof (rule sessionsConsistent_update [OF assms(1)])
  show "heartConsistent (s_metrics (markClockDrift p s))"
    using assms(2) by (simp add: markClockDrift_fields)
  show "sessions (snd (commitMerge commit p s ooo st))
          = (sessions st)(sessionId p \<mapsto> markClockDrift p s)"
    by (simp add: commitMerge_def Let_def)
qed

lemma processEvent_consistent:
  assumes "sessionsConsistent st"
    and "case metric heartRate p of None \<Rightarrow> True | Some h \<Rightarrow> 0 < h"
  shows "sessionsConsistent (snd (processEvent now commit p st))"
proof (cases "events st (eventId p)")
  case (Some e)
  have "sessions (snd (processEvent now commit p st)) = sessions st"
    by (rule processEvent_frames_duplicate(1) [OF Some])
  from sessionsConsistent_cong [OF this] assms(1) show ?thesis
    by blast
next
  case None
  show ?thesis
  proof (cases "sessions st (sessionId p)")
    case absent: None
    show ?thesis
    proof (cases "eventType p = Start")
      case True
      with None absent commitMerge_consistent [OF assms(1) created_consistent [OF assms(2)]]
      show ?thesis
        by (simp add: processEvent_new)
    next
      case False
      with None absent assms(1) show ?thesis
        by (simp add: processEvent_def)
    qed
  next
    case (Some s)
    from sessionsConsistentD [OF assms(1) Some]
    have "heartConsistent (s_metrics (fst (mergeExisting now commit s p)))"
      by (rule mergeExisting_consistent)
    from commitMerge_consistent [OF assms(1) this] None Some show ?thesis
      by (simp add: processEvent_existing)
  qed
qed

lemma claimTransaction_sessions:
  "sessions (snd (claimTransaction truthy clk k req st)) = sessions st"
  by (simp add: claimTransaction_def writeClaim_def split: option.splits record_status.splits)

lemma guard_consistent:
  assumes "\<And>st'. sessionsConsistent st' \<Longrightarrow> sessionsConsistent (snd (processor st'))"
    and "sessionsConsistent st"
  shows "sessionsConsistent (snd (processWithIdempotency truthy clk k req processor st))"
proof -
  obtain res st1 where cl: "claimTransaction truthy clk k req st = (res, st1)"
    by (cases "claimTransaction truthy clk k req st")
  with claimTransaction_sessions [of truthy clk k req st] have "sessions st1 = sessions st"
    by simp
  from sessionsConsistent_cong [OF this] assms(2) have st1: "sessionsConsistent st1"
    by blast
  show ?thesis
  proof (cases res)
    case (Inl e)
    with cl st1 show ?thesis
      by (simp add: processWithIdempotency_def)
  next
    case (Inr cr)
    show ?thesis
    proof (cases cr)
      case (FromCache r)
      with cl Inr st1 show ?thesis
        by (simp add: processWithIdempotency_def)
    next
      case ShouldProcess
      obtain out st2 where pr: "processor st1 = (out, st2)"
        by (cases "processor st1")
      with assms(1) [OF st1] have "sessionsConsistent st2"
        by simp
      with sessionsConsistent_cong [OF finalizeRecord_frames(1), of "final_at clk" k out st2]
      have "sessionsConsistent (snd (finalizeRecord (final_at clk) k out st2))"
        by blast
      with cl Inr ShouldProcess pr show ?thesis
        by (simp add: processWithIdempotency_def)
    qed
  qed
qed

lemma ingest_consistent:
  assumes "sessionsConsistent st"
  shows "sessionsConsistent (snd (ingestExerciseEvent clk method body st))"
proof (cases "method = ''POST''")
  case False
  with assms show ?thesis
    by (simp add: ingestExerciseEvent_def)
next
  case True
  obtain err p where v: "validatePayload (validated_at clk) body = (err, p)"
    by (cases "validatePayload (validated_at clk) body")
  show ?thesis
  proof (cases err)
    case (Some reason)
    with True v assms show ?thesis
      by (simp add: ingestExerciseEvent_def)
  next
    case None
    with v have hr: "case metric heartRate p of None \<Rightarrow> True | Some h \<Rightarrow> 0 < h"
      by (simp add: validated_heart_rate)
    let ?g = "processWithIdempotency objectTruthy (guard_times clk) (idempotencyKey p) p
                (processEvent (merged_at clk) (committed_at clk) p) st"
    have g: "sessionsConsistent (snd ?g)"
      by (rule guard_consistent [OF _ assms]) (simp add: processEvent_consistent hr)
    have "snd (ingestExerciseEvent clk method body st) = snd ?g
        \<or> snd (ingestExerciseEvent clk method body st) = logMetrics ''event_ingested'' (snd ?g)"
      using True v None by (cases ?g) (auto simp add: ingestExerciseEvent_def split: sum.splits)
    with g show ?thesis
      by (auto simp add: logMetrics_def sessionsConsistent_def)
  qed
qed

lemma reachable_consistent:
  "reachable st \<Longrightarrow> sessionsConsistent st"
proof (induction rule: reachable.induct)
  case (initial st)
  then show ?case by (simp add: sessionsConsistent_def)
next
  case (request st clk verb payload)
  then show ?case by (simp add: ingest_consistent)
qed


lemma stored_heart_rate:
  assumes "events st (eventId p) = None" and "sessions st (sessionId p) = Some s"
    and "\<not> sequenceOutOfOrder s p" and "\<not> timeOutOfOrder s p"
    and "metrics p = Some m" and "heartRate m = Some hr" and "0 < hr" and "hr \<le> 250"
    and "0 < (case heartRateDataPoints (s_metrics s) of None \<Rightarrow> 0 | Some w \<Rightarrow> w)
             + (case duration m of None \<Rightarrow> 1 | Some d \<Rightarrow> max d 1)"
  shows "\<exists>s'. sessions (snd (processEvent now commit p st)) (sessionId p) = Some s'
     \<and> heartRateAvg (s_metrics s')
         = Some (((case heartRateAvg (s_metrics s) of
                     None \<Rightarrow> hr | Some a \<Rightarrow> if a = 0 then hr else a)
                   * (case heartRateDataPoints (s_metrics s) of None \<Rightarrow> 0 | Some w \<Rightarrow> w)
                  + hr * (case duration m of None \<Rightarrow> 1 | Some d \<Rightarrow> max d 1))
                 / ((case heartRateDataPoints (s_metrics s) of None \<Rightarrow> 0 | Some w \<Rightarrow> w)
                    + (case duration m of None \<Rightarrow> 1 | Some d \<Rightarrow> max d 1)))
     \<and> heartRateDataPoints (s_metrics s')
         = Some ((case heartRateDataPoints (s_metrics s) of None \<Rightarrow> 0 | Some w \<Rightarrow> w)
                 + (case duration m of None \<Rightarrow> 1 | Some d \<Rightarrow> max d 1))"
  using stored_session_accepted(1) [OF assms(1-4), of now commit]
    accepted_heart_rate [OF assms(5-9), of now commit]
  by (simp add: markClockDrift_fields updateTracking_fields)

lemma stored_heart_rate_reachable:
  assumes "reachable st"
    and "events st (eventId p) = None" and "sessions st (sessionId p) = Some s"
    and "\<not> sequenceOutOfOrder s p" and "\<not> timeOutOfOrder s p"
    and "metrics p = Some m" and "heartRate m = Some hr" and "0 < hr" and "hr \<le> 250"
  shows "\<exists>s'. sessions (snd (processEvent now commit p st)) (sessionId p) = Some s'
     \<and> heartRateAvg (s_metrics s')
         = Some (((case heartRateAvg (s_metrics s) of None \<Rightarrow> hr | Some a \<Rightarrow> a)
                   * (case heartRateDataPoints (s_metrics s) of None \<Rightarrow> 0 | Some w \<Rightarrow> w)
                  + hr * (case duration m of None \<Rightarrow> 1 | Some d \<Rightarrow> max d 1))
                 / ((case heartRateDataPoints (s_metrics s) of None \<Rightarrow> 0 | Some w \<Rightarrow> w)
                    + (case duration m of None \<Rightarrow> 1 | Some d \<Rightarrow> max d 1)))
     \<and> heartRateDataPoints (s_metrics s')
         = Some ((case heartRateDataPoints (s_metrics s) of None \<Rightarrow> 0 | Some w \<Rightarrow> w)
                 + (case duration m of None \<Rightarrow> 1 | Some d \<Rightarrow> max d 1))"
proof -
  from sessionsConsistentD [OF reachable_consistent [OF assms(1)] assms(3)]
  have inv: "heartConsistent (s_metrics s)" .
  have w: "0 \<le> (case heartRateDataPoints (s_metrics s) of None \<Rightarrow> 0 | Some w \<Rightarrow> w)"
    using inv by (simp add: heartConsistent_def split: option.splits)
  have d: "1 \<le> (case duration m of None \<Rightarrow> 1 | Some d \<Rightarrow> max d (1::real))"
    by (simp split: option.splits)
  have pos: "0 < (case heartRateDataPoints (s_metrics s) of None \<Rightarrow> 0 | Some w \<Rightarrow> w)
                 + (case duration m of None \<Rightarrow> 1 | Some d \<Rightarrow> max d 1)"
    using w d by linarith
  have a: "(case heartRateAvg (s_metrics s) of None \<Rightarrow> hr | Some a \<Rightarrow> if a = 0 then hr else a)
         = (case heartRateAvg (s_metrics s) of None \<Rightarrow> hr | Some a \<Rightarrow> a)"
    using inv by (auto simp add: heartConsistent_def split: option.splits)
  from stored_heart_rate [OF assms(2-9) pos, of now commit] show ?thesis
    unfolding a .
qed

lemma stored_start_reading:
  assumes "events st (eventId p) = None" and "sessions st (sessionId p) = None"
    and "eventType p = Start"
    and "metrics p = Some m" and "heartRate m = Some hr" and "duration m = Some d"
    and "0 < hr" and "1 \<le> d"
    and "sessions (snd (processEvent now commit p st)) (sessionId p) = Some s"
  shows "heartRateAvg (s_metrics s) = Some hr" and "heartRateDataPoints (s_metrics s) = Some d"
proof -
  have "hr \<noteq> 0"
    using assms(7) by simp
  note first = created_heart_fields [OF assms(4,5) this assms(6,8), of commit]
  have "s = markClockDrift p (createNewSession commit p)"
    using assms(9) by (simp add: processEvent_new [OF assms(1-3)] commitMerge_parts)
  then show "heartRateAvg (s_metrics s) = Some hr" and "heartRateDataPoints (s_metrics s) = Some d"
    by (simp_all add: markClockDrift_fields first)
qed

lemma second_reading:
  assumes "heartRateAvg (s_metrics s) = Some hr1" and "heartRateDataPoints (s_metrics s) = Some d1"
    and "0 < hr1" and "1 \<le> d1"
    and "events st (eventId p) = None" and "sessions st (sessionId p) = Some s"
    and "\<not> sequenceOutOfOrder s p" and "\<not> timeOutOfOrder s p"
    and "metrics p = Some m" and "heartRate m = Some hr2" and "duration m = Some d2"
    and "0 < hr2" and "hr2 \<le> 250" and "1 \<le> d2"
  shows "\<exists>s'. sessions (snd (processEvent now commit p st)) (sessionId p) = Some s'
     \<and> heartRateAvg (s_metrics s') = Some ((hr1 * d1 + hr2 * d2) / (d1 + d2))"
proof -
  have pos: "0 < (case heartRateDataPoints (s_metrics s) of None \<Rightarrow> 0 | Some w \<Rightarrow> w)
                 + (case duration m of None \<Rightarrow> 1 | Some d \<Rightarrow> max d 1)"
    using assms(2,4,11,14) by simp
  from stored_heart_rate [OF assms(5-10,12,13) pos, of now commit] assms(1-4,11,14)
  show ?thesis
    by (auto simp add: max_def)
qed

lemma first_reading_without_prior:
  assumes "heartRateAvg (s_metrics s) = None"
    and "(case heartRateDataPoints (s_metrics s) of None \<Rightarrow> 0 | Some w \<Rightarrow> w) = 0"
    and "events st (eventId p) = None" and "sessions st (sessionId p) = Some s"
    and "\<not> sequenceOutOfOrder s p" and "\<not> timeOutOfOrder s p"
    and "metrics p = Some m" and "heartRate m = Some hr" and "duration m = Some d"
    and "0 < hr" and "hr \<le> 250" and "1 \<le> d"
    and "sessions (snd (processEvent now commit p st)) (sessionId p) = Some s'"
  shows "heartRateAvg (s_metrics s') = Some hr" and "heartRateDataPoints (s_metrics s') = Some d"
proof -
  have pos: "0 < (case heartRateDataPoints (s_metrics s) of None \<Rightarrow> 0 | Some w \<Rightarrow> w)
                 + (case duration m of None \<Rightarrow> 1 | Some d \<Rightarrow> max d 1)"
    using assms(2,9,12) by simp
  from stored_heart_rate [OF assms(3-8,10,11) pos, of now commit] assms(1,2,9,10,12,13)
  show "heartRateAvg (s_metrics s') = Some hr" and "heartRateDataPoints (s_metrics s') = Some d"
    by (simp_all add: max_def)
qed


text \<open>
  C9. On every store the endpoint produces, an accepted (not out-of-order) event with a
  heart rate in (0, 250] is stored as the duration-weighted running mean: with
  \<open>dur = max(reportedDuration, 1)\<close> (1 when none is reported), \<open>weight_prev\<close> the session's
  \<open>heartRateDataPoints\<close> (0 if absent) and \<open>avg_prev\<close> the session's \<open>heartRateAvg\<close> (the new
  reading if there is none), the stored average is
  \<open>(avg_prev * weight_prev + heartRate * dur) / (weight_prev + dur)\<close> and the stored weight is
  \<open>weight_prev + dur\<close>. For two readings \<open>(hr1, d1)\<close> then \<open>(hr2, d2)\<close> with durations at
  least 1, the first on the start event that creates the session or on a session without
  heart-rate data, the stored average is \<open>(hr1 * d1 + hr2 * d2) / (d1 + d2)\<close>. Numbers are
  exact reals.
\<close>

theorem heart_rate_weighted_mean:
  "(reachable st \<and> events st (eventId p) = None \<and> sessions st (sessionId p) = Some s
      \<and> \<not> sequenceOutOfOrder s p \<and> \<not> timeOutOfOrder s p
      \<and> metrics p = Some m \<and> heartRate m = Some hr \<and> 0 < hr \<and> hr \<le> 250
      \<longrightarrow> (let dur = (case duration m of None \<Rightarrow> 1 | Some d \<Rightarrow> max d 1);
               weight_prev = (case heartRateDataPoints (s_metrics s) of None \<Rightarrow> 0 | Some w \<Rightarrow> w);
               avg_prev = (case heartRateAvg (s_metrics s) of None \<Rightarrow> hr | Some a \<Rightarrow> a)
           in \<exists>s'. sessions (snd (processEvent now commit p st)) (sessionId p) = Some s'
                \<and> heartRateAvg (s_metrics s')
                    = Some ((avg_prev * weight_prev + hr * dur) / (weight_prev + dur))
                \<and> heartRateDataPoints (s_metrics s') = Some (weight_prev + dur)))
   \<and> (metrics p1 = Some m1 \<and> heartRate m1 = Some hr1 \<and> duration m1 = Some d1
      \<and> metrics p2 = Some m2 \<and> heartRate m2 = Some hr2 \<and> duration m2 = Some d2
      \<and> 0 < hr1 \<and> hr1 \<le> 250 \<and> 0 < hr2 \<and> hr2 \<le> 250 \<and> 1 \<le> d1 \<and> 1 \<le> d2
      \<and> events st0 (eventId p1) = None \<and> sessionId p2 = sessionId p1
      \<and> events (snd (processEvent now1 commit1 p1 st0)) (eventId p2) = None
      \<and> sessions (snd (processEvent now1 commit1 p1 st0)) (sessionId p1) = Some s1
      \<and> \<not> sequenceOutOfOrder s1 p2 \<and> \<not> timeOutOfOrder s1 p2
      \<and> (sessions st0 (sessionId p1) = None \<and> eventType p1 = Start
          \<or> (\<exists>s0. sessions st0 (sessionId p1) = Some s0
                \<and> \<not> sequenceOutOfOrder s0 p1 \<and> \<not> timeOutOfOrder s0 p1
                \<and> heartRateAvg (s_metrics s0) = None
                \<and> (case heartRateDataPoints (s_metrics s0) of None \<Rightarrow> 0 | Some w \<Rightarrow> w) = 0))
      \<longrightarrow> (\<exists>s2. sessions (snd (processEvent now2 commit2 p2
                               (snd (processEvent now1 commit1 p1 st0)))) (sessionId p2)
                  = Some s2
               \<and> heartRateAvg (s_metrics s2) = Some ((hr1 * d1 + hr2 * d2) / (d1 + d2))))"
proof (intro conjI impI)
  assume "reachable st \<and> events st (eventId p) = None \<and> sessions st (sessionId p) = Some s
      \<and> \<not> sequenceOutOfOrder s p \<and> \<not> timeOutOfOrder s p
      \<and> metrics p = Some m \<and> heartRate m = Some hr \<and> 0 < hr \<and> hr \<le> 250"
  then have h: "reachable st" "events st (eventId p) = None" "sessions st (sessionId p) = Some s"
    "\<not> sequenceOutOfOrder s p" "\<not> timeOutOfOrder s p"
    "metrics p = Some m" "heartRate m = Some hr" "0 < hr" "hr \<le> 250"
    by simp_all
  show "let dur = (case duration m of None \<Rightarrow> 1 | Some d \<Rightarrow> max d 1);
            weight_prev = (case heartRateDataPoints (s_metrics s) of None \<Rightarrow> 0 | Some w \<Rightarrow> w);
            avg_prev = (case heartRateAvg (s_metrics s) of None \<Rightarrow> hr | Some a \<Rightarrow> a)
        in \<exists>s'. sessions (snd (processEvent now commit p st)) (sessionId p) = Some s'
             \<and> heartRateAvg (s_metrics s')
                 = Some ((avg_prev * weight_prev + hr * dur) / (weight_prev + dur))
             \<and> heartRateDataPoints (s_metrics s') = Some (weight_prev + dur)"
    unfolding Let_def by (rule stored_heart_rate_reachable [OF h])
next
  let ?st1 = "snd (processEvent now1 commit1 p1 st0)"
  assume "metrics p1 = Some m1 \<and> heartRate m1 = Some hr1 \<and> duration m1 = Some d1
      \<and> metrics p2 = Some m2 \<and> heartRate m2 = Some hr2 \<and> duration m2 = Some d2
      \<and> 0 < hr1 \<and> hr1 \<le> 250 \<and> 0 < hr2 \<and> hr2 \<le> 250 \<and> 1 \<le> d1 \<and> 1 \<le> d2
      \<and> events st0 (eventId p1) = None \<and> sessionId p2 = sessionId p1
      \<and> events ?st1 (eventId p2) = None
      \<and> sessions ?st1 (sessionId p1) = Some s1
      \<and> \<not> sequenceOutOfOrder s1 p2 \<and> \<not> timeOutOfOrder s1 p2
      \<and> (sessions st0 (sessionId p1) = None \<and> eventType p1 = Start
          \<or> (\<exists>s0. sessions st0 (sessionId p1) = Some s0
                \<and> \<not> sequenceOutOfOrder s0 p1 \<and> \<not> timeOutOfOrder s0 p1
                \<and> heartRateAvg (s_metrics s0) = None
                \<and> (case heartRateDataPoints (s_metrics s0) of None \<Rightarrow> 0 | Some w \<Rightarrow> w) = 0))"
  then have one: "metrics p1 = Some m1" "heartRate m1 = Some hr1" "duration m1 = Some d1"
    "0 < hr1" "hr1 \<le> 250" "1 \<le> d1" "events st0 (eventId p1) = None"
    and two: "metrics p2 = Some m2" "heartRate m2 = Some hr2" "duration m2 = Some d2"
    "0 < hr2" "hr2 \<le> 250" "1 \<le> d2"
    and mid: "events ?st1 (eventId p2) = None" "sessions ?st1 (sessionId p2) = Some s1"
    "sessions ?st1 (sessionId p1) = Some s1"
    "\<not> sequenceOutOfOrder s1 p2" "\<not> timeOutOfOrder s1 p2"
    and first: "sessions st0 (sessionId p1) = None \<and> eventType p1 = Start
          \<or> (\<exists>s0. sessions st0 (sessionId p1) = Some s0
                \<and> \<not> sequenceOutOfOrder s0 p1 \<and> \<not> timeOutOfOrder s0 p1
                \<and> heartRateAvg (s_metrics s0) = None
                \<and> (case heartRateDataPoints (s_metrics s0) of None \<Rightarrow> 0 | Some w \<Rightarrow> w) = 0)"
    by simp_all
  from first have s1: "heartRateAvg (s_metrics s1) = Some hr1
      \<and> heartRateDataPoints (s_metrics s1) = Some d1"
  proof
    assume "sessions st0 (sessionId p1) = None \<and> eventType p1 = Start"
    then have "sessions st0 (sessionId p1) = None" and "eventType p1 = Start"
      by simp_all
    from stored_start_reading [OF one(7) this one(1-3,4,6) mid(3)] show ?thesis
      by simp
  next
    assume "\<exists>s0. sessions st0 (sessionId p1) = Some s0
                \<and> \<not> sequenceOutOfOrder s0 p1 \<and> \<not> timeOutOfOrder s0 p1
                \<and> heartRateAvg (s_metrics s0) = None
                \<and> (case heartRateDataPoints (s_metrics s0) of None \<Rightarrow> 0 | Some w \<Rightarrow> w) = 0"
    then obtain s0 where s0: "sessions st0 (sessionId p1) = Some s0"
      "\<not> sequenceOutOfOrder s0 p1" "\<not> timeOutOfOrder s0 p1"
      "heartRateAvg (s_metrics s0) = None"
      "(case heartRateDataPoints (s_metrics s0) of None \<Rightarrow> 0 | Some w \<Rightarrow> w) = 0"
      by blast
    from first_reading_without_prior [OF s0(4,5) one(7) s0(1-3) one(1-3,4,5,6) mid(3)]
    show ?thesis
      by simp
  qed
  then have avg1: "heartRateAvg (s_metrics s1) = Some hr1"
    and wt1: "heartRateDataPoints (s_metrics s1) = Some d1"
    by simp_all
  show "\<exists>s2. sessions (snd (processEvent now2 commit2 p2 ?st1)) (sessionId p2) = Some s2
          \<and> heartRateAvg (s_metrics s2) = Some ((hr1 * d1 + hr2 * d2) / (d1 + d2))"
    by (rule second_reading [OF avg1 wt1 one(4,6) mid(1,2,4,5) two])
qed


lemma heartRequest_fields:
  "sessionId (heartRequest e ty hr d) = ''session-1''"
  "eventId (heartRequest e ty hr d) = e"
  "eventType (heartRequest e ty hr d) = ty"
  "timestamp (heartRequest e ty hr d) = 1000"
  "eventSequence (heartRequest e ty hr d) = Some 1"
  "idempotencyKey (heartRequest e ty hr d) = ''key-1''"
  "p_requiresReconciliation (heartRequest e ty hr d) = None"
  by (simp_all add: heartRequest_def testRequest_def)

lemma heartUpdate_fields:
  "sessionId (heartUpdate e n hr d) = ''session-1''"
  "eventId (heartUpdate e n hr d) = e"
  "timestamp (heartUpdate e n hr d) = 1000"
  "eventSequence (heartUpdate e n hr d) = Some n"
  "p_requiresReconciliation (heartUpdate e n hr d) = None"
  "metrics (heartUpdate e n hr d)
     = Some \<lparr> calories = None, distance = None, heartRate = Some hr, duration = Some d \<rparr>"
  by (simp_all add: heartUpdate_def heartRequest_def testRequest_def)

lemma plainStart_fields:
  "sessionId plainStart = ''session-1''"
  "eventId plainStart = ''event-0''"
  "eventType plainStart = Start"
  "timestamp plainStart = 1000"
  "eventSequence plainStart = Some 1"
  "p_requiresReconciliation plainStart = None"
  "metrics plainStart = None"
  by (simp_all add: plainStart_def testRequest_def)

lemma markClockDrift_unmarked:
  "p_requiresReconciliation p = None \<Longrightarrow> markClockDrift p s = s"
  by (simp add: markClockDrift_def js_true_def)

lemma started_store:
  assumes "events st (eventId p) = None" and "sessions st (sessionId p) = None"
    and "eventType p = Start"
  shows "sessions (snd (processEvent now commit p st))
           = (sessions st)(sessionId p \<mapsto> markClockDrift p (createNewSession commit p))"
    and "events (snd (processEvent now commit p st))
           = (events st)(eventId p \<mapsto> eventRecord commit False p)"
  by (simp_all add: processEvent_new [OF assms] commitMerge_def Let_def)

lemma accepted_store:
  assumes "events st (eventId p) = None" and "sessions st (sessionId p) = Some s"
    and "\<not> sequenceOutOfOrder s p" and "\<not> timeOutOfOrder s p"
  shows "events (snd (processEvent now commit p st))
           = (events st)(eventId p \<mapsto> eventRecord commit False p)"
  using assms(3,4)
  by (simp add: processEvent_existing [OF assms(1,2)] commitMerge_def Let_def snd_mergeExisting)

lemma created_watermark:
  "lastEventSequence (createNewSession c p) = Some (js_or (eventSequence p) 0)"
  "lastEventTime (createNewSession c p) = Some (timestamp p)"
  by (simp_all add: createNewSession_def)

lemma heartRequest_accepted:
  "validatePayload (validated_at (requestClock 2000)) (heartRequest e Start 120 60)
     = (None, heartRequest e Start 120 60)"
  if "e \<noteq> []"
  using that
  by (simp add: validatePayload_def heartRequest_def testRequest_def validateMetrics_def
      oneWeek_def oneHour_def requestClock_def)

theorem heart_rate_weighted_mean_witness:
  "map_option (heartRateAvg \<circ> s_metrics)
     (sessions (snd (processEvent 3000 3000 (heartUpdate ''event-2'' 2 100 20)
        (snd (ingestExerciseEvent (requestClock 2000) ''POST''
                (heartRequest ''event-1'' Start 120 60) emptyStore)))) ''session-1'')
     = Some (Some 115)
   \<and> map_option (heartRateDataPoints \<circ> s_metrics)
     (sessions (snd (processEvent 3000 3000 (heartUpdate ''event-2'' 2 100 20)
        (snd (ingestExerciseEvent (requestClock 2000) ''POST''
                (heartRequest ''event-1'' Start 120 60) emptyStore)))) ''session-1'')
     = Some (Some 80)
   \<and> map_option (heartRateAvg \<circ> s_metrics)
     (sessions (snd (processEvent 3000 3000 (heartUpdate ''event-2'' 2 100 20)
        (snd (processEvent 2000 2000 (heartRequest ''event-1'' Start 120 60) emptyStore))))
        ''session-1'')
     = Some (Some 115)
   \<and> map_option (heartRateAvg \<circ> s_metrics)
     (sessions (snd (processEvent 3000 3000 (heartUpdate ''event-2'' 3 100 20)
        (snd (processEvent 2000 2000 (heartUpdate ''event-1'' 2 120 60)
           (snd (processEvent 1000 1000 plainStart emptyStore)))))) ''session-1'')
     = Some (Some 115)"
proof -
  let ?p1 = "heartRequest ''event-1'' Start 120 60"
  let ?p2 = "heartUpdate ''event-2'' 2 100 20"
  let ?m1 = "\<lparr> calories = None, distance = None, heartRate = Some 120, duration = Some (60::real) \<rparr>"
  let ?m2 = "\<lparr> calories = None, distance = None, heartRate = Some 100, duration = Some (20::real) \<rparr>"
  let ?s1 = "createNewSession 2000 ?p1"
  let ?direct = "snd (processEvent 2000 2000 ?p1 emptyStore)"
  let ?st = "snd (ingestExerciseEvent (requestClock 2000) ''POST'' ?p1 emptyStore)"
  have empty: "events emptyStore e = None" "sessions emptyStore sid = None"
    "idempotency emptyStore k = None" for e sid k
    by (simp_all add: emptyStore_def)
  have new: "events emptyStore (eventId ?p1) = None" "sessions emptyStore (sessionId ?p1) = None"
    "eventType ?p1 = Start"
    by (simp_all add: empty heartRequest_fields)
  have direct_sessions: "sessions ?direct ''session-1'' = Some ?s1"
    by (simp add: started_store(1) [OF new] heartRequest_fields markClockDrift_unmarked)
  have direct_events: "events ?direct ''event-2'' = None"
    by (simp add: started_store(2) [OF new] heartRequest_fields empty)
  have valid: "validatePayload (validated_at (requestClock 2000)) ?p1 = (None, ?p1)"
    by (simp add: heartRequest_accepted)
  have fresh: "idempotency emptyStore (idempotencyKey ?p1) = None"
    by (rule empty)
  have clock: "merged_at (requestClock 2000) = 2000" "committed_at (requestClock 2000) = 2000"
    by (simp_all add: requestClock_def)
  have st_sessions: "sessions ?st (sessionId ?p2) = Some ?s1"
    using ingest_new_key(1) [OF valid fresh] direct_sessions
    by (simp add: clock heartUpdate_fields)
  have st_events: "events ?st (eventId ?p2) = None"
    using ingest_new_key(2) [OF valid fresh] direct_events
    by (simp add: clock heartUpdate_fields)
  have reach: "reachable ?st"
    by (intro reachable.request reachable.initial) (simp add: emptyStore_def)
  have order: "\<not> sequenceOutOfOrder ?s1 ?p2" "\<not> timeOutOfOrder ?s1 ?p2"
    by (simp_all add: sequenceOutOfOrder_iff timeOutOfOrder_def created_watermark
        heartRequest_fields heartUpdate_fields js_or_def)
  have reading: "metrics ?p2 = Some ?m2" "heartRate ?m2 = Some 100" "(0::real) < 100"
    "(100::real) \<le> 250"
    by (simp_all add: heartUpdate_fields)
  have prev: "heartRateAvg (s_metrics ?s1) = Some 120"
    "heartRateDataPoints (s_metrics ?s1) = Some 60"
    by (simp_all add: createNewSession_def heartRequest_def metric_def js_truthy_def js_or_def)
  have hyp1: "reachable ?st \<and> events ?st (eventId ?p2) = None
      \<and> sessions ?st (sessionId ?p2) = Some ?s1
      \<and> \<not> sequenceOutOfOrder ?s1 ?p2 \<and> \<not> timeOutOfOrder ?s1 ?p2
      \<and> metrics ?p2 = Some ?m2 \<and> heartRate ?m2 = Some 100 \<and> (0::real) < 100
      \<and> (100::real) \<le> 250"
    using reach st_events st_sessions order reading by simp
  from heart_rate_weighted_mean [where st = ?st and p = ?p2 and s = ?s1 and m = ?m2
      and hr = 100 and now = 3000 and commit = 3000, THEN conjunct1, THEN mp, OF hyp1]
  obtain s' where s': "sessions (snd (processEvent 3000 3000 ?p2 ?st)) (sessionId ?p2) = Some s'"
    "heartRateAvg (s_metrics s') = Some 115"
    "heartRateDataPoints (s_metrics s') = Some 80"
    by (auto simp add: prev Let_def)
  have part1: "map_option (heartRateAvg \<circ> s_metrics)
      (sessions (snd (processEvent 3000 3000 ?p2 ?st)) ''session-1'') = Some (Some 115)
    \<and> map_option (heartRateDataPoints \<circ> s_metrics)
      (sessions (snd (processEvent 3000 3000 ?p2 ?st)) ''session-1'') = Some (Some 80)"
    using s' by (simp add: heartUpdate_fields)
  have pair: "metrics ?p1 = Some ?m1 \<and> heartRate ?m1 = Some 120 \<and> duration ?m1 = Some 60
      \<and> metrics ?p2 = Some ?m2 \<and> heartRate ?m2 = Some 100 \<and> duration ?m2 = Some 20
      \<and> (0::real) < 120 \<and> (120::real) \<le> 250 \<and> (0::real) < 100 \<and> (100::real) \<le> 250
      \<and> (1::real) \<le> 60 \<and> (1::real) \<le> 20"
    by (simp add: heartRequest_metrics heartUpdate_fields)
  have link: "sessionId ?p2 = sessionId ?p1" "events ?direct (eventId ?p2) = None"
    "sessions ?direct (sessionId ?p1) = Some ?s1"
    by (simp_all add: heartRequest_fields heartUpdate_fields direct_events direct_sessions)
  have hyp2: "metrics ?p1 = Some ?m1 \<and> heartRate ?m1 = Some 120 \<and> duration ?m1 = Some 60
      \<and> metrics ?p2 = Some ?m2 \<and> heartRate ?m2 = Some 100 \<and> duration ?m2 = Some 20
      \<and> (0::real) < 120 \<and> (120::real) \<le> 250 \<and> (0::real) < 100 \<and> (100::real) \<le> 250
      \<and> (1::real) \<le> 60 \<and> (1::real) \<le> 20
      \<and> events emptyStore (eventId ?p1) = None \<and> sessionId ?p2 = sessionId ?p1
      \<and> events ?direct (eventId ?p2) = None
      \<and> sessions ?direct (sessionId ?p1) = Some ?s1
      \<and> \<not> sequenceOutOfOrder ?s1 ?p2 \<and> \<not> timeOutOfOrder ?s1 ?p2
      \<and> (sessions emptyStore (sessionId ?p1) = None \<and> eventType ?p1 = Start
          \<or> (\<exists>s0. sessions emptyStore (sessionId ?p1) = Some s0
                \<and> \<not> sequenceOutOfOrder s0 ?p1 \<and> \<not> timeOutOfOrder s0 ?p1
                \<and> heartRateAvg (s_metrics s0) = None
                \<and> (case heartRateDataPoints (s_metrics s0) of None \<Rightarrow> 0 | Some w \<Rightarrow> w) = 0))"
    using pair new link order by simp
  from heart_rate_weighted_mean [where ?p1.0 = ?p1 and ?m1.0 = ?m1 and ?hr1.0 = 120
      and ?d1.0 = 60 and ?p2.0 = ?p2 and ?m2.0 = ?m2 and ?hr2.0 = 100 and ?d2.0 = 20
      and ?st0.0 = emptyStore and ?now1.0 = 2000 and ?commit1.0 = 2000 and ?s1.0 = ?s1
      and ?now2.0 = 3000 and ?commit2.0 = 3000, THEN conjunct2, THEN mp, OF hyp2]
  obtain s2 where s2: "sessions (snd (processEvent 3000 3000 ?p2 ?direct)) (sessionId ?p2) = Some s2"
    "heartRateAvg (s_metrics s2) = Some ((120 * 60 + 100 * 20) / (60 + 20))"
    by blast
  have part2: "map_option (heartRateAvg \<circ> s_metrics)
      (sessions (snd (processEvent 3000 3000 ?p2 ?direct)) ''session-1'') = Some (Some 115)"
    using s2 by (simp add: heartUpdate_fields)
  let ?q1 = "heartUpdate ''event-1'' 2 120 60"
  let ?q2 = "heartUpdate ''event-2'' 3 100 20"
  let ?s0 = "createNewSession 1000 plainStart"
  let ?base = "snd (processEvent 1000 1000 plainStart emptyStore)"
  let ?mid = "snd (processEvent 2000 2000 ?q1 ?base)"
  let ?t1 = "updateTracking ?q1 (updateSessionMetrics 2000 2000 ?s0 ?q1)"
  have new0: "events emptyStore (eventId plainStart) = None"
    "sessions emptyStore (sessionId plainStart) = None" "eventType plainStart = Start"
    by (simp_all add: empty plainStart_fields)
  have base_sessions: "sessions ?base (sessionId ?q1) = Some ?s0"
    by (simp add: started_store(1) [OF new0] plainStart_fields heartUpdate_fields
        markClockDrift_unmarked)
  have base_events: "events ?base (eventId ?q1) = None" "events ?base ''event-2'' = None"
    by (simp_all add: started_store(2) [OF new0] plainStart_fields heartUpdate_fields empty)
  have order0: "\<not> sequenceOutOfOrder ?s0 ?q1" "\<not> timeOutOfOrder ?s0 ?q1"
    by (simp_all add: sequenceOutOfOrder_iff timeOutOfOrder_def created_watermark
        plainStart_fields heartUpdate_fields js_or_def)
  have blank: "heartRateAvg (s_metrics ?s0) = None"
    "(case heartRateDataPoints (s_metrics ?s0) of None \<Rightarrow> 0 | Some w \<Rightarrow> w) = 0"
    by (simp_all add: createNewSession_def metric_def plainStart_fields js_truthy_def)
  have mid_sessions: "sessions ?mid (sessionId ?q1) = Some ?t1"
    using stored_session_accepted(1) [OF base_events(1) base_sessions order0, of 2000 2000]
    by (simp add: heartUpdate_fields markClockDrift_unmarked)
  have mid_events: "events ?mid (eventId ?q2) = None"
    by (simp add: accepted_store [OF base_events(1) base_sessions order0] heartUpdate_fields
        base_events(2))
  have order1: "\<not> sequenceOutOfOrder ?t1 ?q2" "\<not> timeOutOfOrder ?t1 ?q2"
    by (simp_all add: sequenceOutOfOrder_iff timeOutOfOrder_def updateTracking_watermark
        updateSessionMetrics_fields created_watermark plainStart_fields heartUpdate_fields
        js_or_def)
  have pair': "metrics ?q1 = Some ?m1 \<and> heartRate ?m1 = Some 120 \<and> duration ?m1 = Some 60
      \<and> metrics ?q2 = Some ?m2 \<and> heartRate ?m2 = Some 100 \<and> duration ?m2 = Some 20
      \<and> (0::real) < 120 \<and> (120::real) \<le> 250 \<and> (0::real) < 100 \<and> (100::real) \<le> 250
      \<and> (1::real) \<le> 60 \<and> (1::real) \<le> 20"
    by (simp add: heartUpdate_fields)
  have link': "sessionId ?q2 = sessionId ?q1"
    by (simp add: heartUpdate_fields)
  have hyp3: "metrics ?q1 = Some ?m1 \<and> heartRate ?m1 = Some 120 \<and> duration ?m1 = Some 60
      \<and> metrics ?q2 = Some ?m2 \<and> heartRate ?m2 = Some 100 \<and> duration ?m2 = Some 20
      \<and> (0::real) < 120 \<and> (120::real) \<le> 250 \<and> (0::real) < 100 \<and> (100::real) \<le> 250
      \<and> (1::real) \<le> 60 \<and> (1::real) \<le> 20
      \<and> events ?base (eventId ?q1) = None \<and> sessionId ?q2 = sessionId ?q1
      \<and> events ?mid (eventId ?q2) = None
      \<and> sessions ?mid (sessionId ?q1) = Some ?t1
      \<and> \<not> sequenceOutOfOrder ?t1 ?q2 \<and> \<not> timeOutOfOrder ?t1 ?q2
      \<and> (sessions ?base (sessionId ?q1) = None \<and> eventType ?q1 = Start
          \<or> (\<exists>s0. sessions ?base (sessionId ?q1) = Some s0
                \<and> \<not> sequenceOutOfOrder s0 ?q1 \<and> \<not> timeOutOfOrder s0 ?q1
                \<and> heartRateAvg (s_metrics s0) = None
                \<and> (case heartRateDataPoints (s_metrics s0) of None \<Rightarrow> 0 | Some w \<Rightarrow> w) = 0))"
    using pair' base_events(1) link' mid_events mid_sessions order1 base_sessions order0 blank
    by simp
  from heart_rate_weighted_mean [where ?p1.0 = ?q1 and ?m1.0 = ?m1 and ?hr1.0 = 120
      and ?d1.0 = 60 and ?p2.0 = ?q2 and ?m2.0 = ?m2 and ?hr2.0 = 100 and ?d2.0 = 20
      and ?st0.0 = ?base and ?now1.0 = 2000 and ?commit1.0 = 2000 and ?s1.0 = ?t1
      and ?now2.0 = 3000 and ?commit2.0 = 3000, THEN conjunct2, THEN mp, OF hyp3]
  obtain s3 where s3: "sessions (snd (processEvent 3000 3000 ?q2 ?mid)) (sessionId ?q2) = Some s3"
    "heartRateAvg (s_metrics s3) = Some ((120 * 60 + 100 * 20) / (60 + 20))"
    by blast
  have part3: "map_option (heartRateAvg \<circ> s_metrics)
      (sessions (snd (processEvent 3000 3000 ?q2 ?mid)) ''session-1'') = Some (Some 115)"
    using s3 by (simp add: heartUpdate_fields)
  from part1 part2 part3 show ?thesis
    by simp
qed

end
